theory Spec2Isabelle
  imports Main "HOL-Library.AList"
begin

section \<open>Data model\<close>

text \<open>
  The session core of the browser-automation server: \<^verbatim>\<open>McpContext\<close> (page registry,
  snapshot engine, element resolver) and \<^verbatim>\<open>McpResponse\<close> (response assembler).

  Objects owned by the browser driver (\<^verbatim>\<open>Page\<close>, \<^verbatim>\<open>ElementHandle\<close>) are opaque: they are
  modelled by their identity, a natural number. JavaScript numbers that the code only ever
  uses as counters starting at 1 or 0 and incremented by \<^verbatim>\<open>++\<close> are natural numbers.
  Strings are byte lists; the characters the code inspects (the underscore of a uid, the
  prefix \<^verbatim>\<open>devtools://\<close>) are ASCII.
\<close>

type_synonym page = nat
type_synonym element_handle = nat

text \<open>A JavaScript \<^verbatim>\<open>Error\<close>: its message and its optional \<^verbatim>\<open>cause\<close>.\<close>

datatype error = Error (message: string) (cause: "error option")

text \<open>
  \<^verbatim>\<open>SerializedAXNode\<close>, as the driver's accessibility snapshot returns it. \<^verbatim>\<open>name\<close>,
  \<^verbatim>\<open>value\<close> and \<^verbatim>\<open>children\<close> are optional properties; \<^verbatim>\<open>value\<close> is a string or a number.
  The method \<^verbatim>\<open>elementHandle()\<close> asks the driver for the live element at the time of the
  call: the node carries the reference \<open>ax_element\<close> that the driver resolves
  (\<open>node_elementHandle\<close> below). The remaining descriptive properties of a node are copied
  unchanged by the object spread and are inspected nowhere in the code; they are left out.
\<close>

datatype axvalue = StringValue string | NumberValue int

datatype axnode = SerializedAXNode
  (ax_role: string) (ax_name: "string option") (ax_value: "axvalue option")
  (ax_children: "axnode list option") (ax_element: nat)

text \<open>\<^verbatim>\<open>TextSnapshotNode\<close>: the node with its \<^verbatim>\<open>id\<close>, and \<^verbatim>\<open>children\<close> always a list.\<close>

datatype tsnode = TextSnapshotNode
  (ts_id: string) (ts_role: string) (ts_name: "string option") (ts_value: "axvalue option")
  (ts_children: "tsnode list") (ts_element: nat)

text \<open>
  \<^verbatim>\<open>TextSnapshot\<close>. \<^verbatim>\<open>idToNode\<close> is a JavaScript \<^verbatim>\<open>Map\<close>: an association list in insertion
  order with one entry per key, \<^verbatim>\<open>set\<close> being \<^const>\<open>AList.update\<close>, \<^verbatim>\<open>get\<close> being
  \<^const>\<open>map_of\<close> and \<^verbatim>\<open>size\<close> the length.
\<close>

record TextSnapshot =
  root :: tsnode
  idToNode :: "(string \<times> tsnode) list"
  snapshotId :: string
  selectedElementUid :: "string option"
  hasSelectedElement :: bool
  verbose :: bool

record Dialog =
  dialog_type :: string
  dialog_message :: string
  dialog_defaultValue :: string

record McpContextOptions =
  experimentalDevToolsDebugging :: bool
  experimentalIncludeAllPages :: "bool option"

text \<open>
  What the code asks of its collaborators and does not compute itself: the answers of the
  browser driver, of the snapshot formatter (\<^verbatim>\<open>formatters/snapshotFormatter.js\<close>) and of the
  file system at the time of a call. \<open>fs_writeFile path data\<close> is the error that writing
  raises, if any. Collaborator calls other than the file write are taken to return normally.
\<close>

record collaborator =
  browser_pages :: "bool option \<Rightarrow> page list"
  browser_newPage :: page
  page_url :: "page \<Rightarrow> string"
  page_isClosed :: "page \<Rightarrow> bool"
  accessibility_snapshot :: "page \<Rightarrow> bool \<Rightarrow> bool \<Rightarrow> axnode option"
  node_elementHandle :: "nat \<Rightarrow> element_handle option"
  formatSnapshotNode :: "tsnode \<Rightarrow> TextSnapshot \<Rightarrow> string"
  path_resolve :: "string \<Rightarrow> string"
  fs_writeFile :: "string \<Rightarrow> string \<Rightarrow> error option"

text \<open>
  The commands the code issues to its collaborators, in the order it issues them:
  \<^verbatim>\<open>page.off('dialog', handler)\<close>, \<^verbatim>\<open>page.on('dialog', handler)\<close> (the handler is always the
  context's own \<^verbatim>\<open>#dialogHandler\<close>), \<^verbatim>\<open>page.emulateFocusedPage(b)\<close>, the two timeout setters,
  \<^verbatim>\<open>page.close({runBeforeUnload: b})\<close> and \<^verbatim>\<open>logger(err)\<close>.
\<close>

datatype call =
    Off_dialog page
  | On_dialog page
  | EmulateFocusedPage page bool
  | SetDefaultTimeout page nat
  | SetDefaultNavigationTimeout page nat
  | Close page bool
  | Logger error

text \<open>
  The private fields of \<^verbatim>\<open>McpContext\<close>, followed by the two parts of the outside world that
  its methods change: the log of commands issued (\<open>calls\<close>) and the files written (\<open>files\<close>).
  \<^verbatim>\<open>#pageIdMap\<close> is a \<^verbatim>\<open>WeakMap\<close> keyed by page identity.
\<close>

record McpContext =
  pages :: "page list"
  selectedPage :: "page option"
  textSnapshot :: "TextSnapshot option"
  dialog :: "Dialog option"
  pageIdMap :: "page \<rightharpoonup> nat"
  nextPageId :: nat
  nextSnapshotId :: nat
  options :: McpContextOptions
  calls :: "call list"
  files :: "string \<rightharpoonup> string"

text \<open>A method's outcome: the error thrown or the value returned, and the state it leaves.\<close>

type_synonym 'a outcome = "(error + 'a) \<times> McpContext"

record SnapshotParams =
  sp_verbose :: "bool option"
  sp_filePath :: "string option"

record ImageContentData =
  img_data :: string
  img_mimeType :: string

record McpResponse =
  includePages :: bool
  snapshotParams :: "SnapshotParams option"
  textResponseLines :: "string list"
  images :: "ImageContentData list"

datatype content = TextContent string | ImageContent string string

section \<open>JavaScript primitives\<close>

text \<open>Truthiness of an optional string: defined and not empty.\<close>

definition truthy :: "string option \<Rightarrow> bool" where
  "truthy s = (case s of None \<Rightarrow> False | Some t \<Rightarrow> t \<noteq> [])"

text \<open>\<^verbatim>\<open>String(n)\<close> and \<^verbatim>\<open>`${n}`\<close> for a non-negative integer: its decimal digits.\<close>

definition digit_char :: "nat \<Rightarrow> char" where
  "digit_char d = char_of (48 + d)"

function string_of_nat :: "nat \<Rightarrow> string" where
  "string_of_nat n =
     (if n < 10 then [digit_char n]
      else string_of_nat (n div 10) @ [digit_char (n mod 10)])"
  by pat_completeness auto
termination
  by (relation "measure id") auto

declare string_of_nat.simps [simp del]

text \<open>\<^verbatim>\<open>s.split(sep)\<close> for a one-character separator; the result is never empty.\<close>

fun js_split :: "char \<Rightarrow> string \<Rightarrow> string list" where
  "js_split sep [] = [[]]"
| "js_split sep (c # cs) =
     (if c = sep then [] # js_split sep cs
      else (c # hd (js_split sep cs)) # tl (js_split sep cs))"

fun startsWith :: "string \<Rightarrow> string \<Rightarrow> bool" where
  "startsWith s [] = True"
| "startsWith [] (p # ps) = False"
| "startsWith (c # cs) (p # ps) = (c = p \<and> startsWith cs ps)"

definition push :: "'a list \<Rightarrow> 'a \<Rightarrow> 'a list" where
  "push xs x = xs @ [x]"

fun join :: "string \<Rightarrow> string list \<Rightarrow> string" where
  "join sep [] = []"
| "join sep [x] = x"
| "join sep (x # y # ys) = x @ sep @ join sep (y # ys)"

definition NL :: string where
  "NL = [CHR 0x0A]"

definition DQ :: string where
  "DQ = [CHR 0x22]"

section \<open>Constants\<close>

definition CLOSE_PAGE_ERROR :: string where
  "CLOSE_PAGE_ERROR = ''The last open page cannot be closed. It is fine to keep it open.''"

definition DEFAULT_TIMEOUT :: nat where
  "DEFAULT_TIMEOUT = 5000"

definition NAVIGATION_TIMEOUT :: nat where
  "NAVIGATION_TIMEOUT = 10000"

text \<open>
  The \<^verbatim>\<open>name\<close> of the tools \<^verbatim>\<open>listPages\<close>, \<^verbatim>\<open>takeSnapshot\<close> and \<^verbatim>\<open>handleDialog\<close>, whose
  definitions (\<^verbatim>\<open>tools/pages.js\<close>, \<^verbatim>\<open>tools/snapshot.js\<close>) are outside the sources at hand; the
  names are the ones the tool reference lists.
\<close>

definition listPages_name :: string where
  "listPages_name = ''list_pages''"

definition takeSnapshot_name :: string where
  "takeSnapshot_name = ''take_snapshot''"

definition handleDialog_name :: string where
  "handleDialog_name = ''handle_dialog''"

definition NO_PAGE_SELECTED :: error where
  "NO_PAGE_SELECTED = Error ''No page selected'' None"

definition SELECTED_PAGE_CLOSED :: error where
  "SELECTED_PAGE_CLOSED =
     Error (''The selected page has been closed. Call '' @ listPages_name @ '' to see open pages.'') None"

definition NO_PAGE_FOUND :: error where
  "NO_PAGE_FOUND = Error ''No page found'' None"

definition NO_SNAPSHOT :: error where
  "NO_SNAPSHOT = Error (''No snapshot found. Use '' @ takeSnapshot_name @ '' to capture one.'') None"

definition STALE_SNAPSHOT :: error where
  "STALE_SNAPSHOT =
     Error ''This uid is coming from a stale snapshot. Call take_snapshot to get a fresh snapshot.'' None"

definition NO_SUCH_ELEMENT :: error where
  "NO_SUCH_ELEMENT = Error ''No such element found in the snapshot'' None"

section \<open>McpContext\<close>

text \<open>The field initialisers of the class and its constructor.\<close>

definition McpContext_new :: "McpContextOptions \<Rightarrow> McpContext" where
  "McpContext_new opts =
     \<lparr>pages = [], selectedPage = None, textSnapshot = None, dialog = None,
      pageIdMap = Map.empty, nextPageId = 1, nextSnapshotId = 1, options = opts,
      calls = [], files = Map.empty\<rparr>"

definition getDialog :: "McpContext \<Rightarrow> Dialog option" where
  "getDialog s = dialog s"

definition clearDialog :: "McpContext \<Rightarrow> McpContext" where
  "clearDialog s = s\<lparr>dialog := None\<rparr>"

definition dialogHandler :: "Dialog \<Rightarrow> McpContext \<Rightarrow> McpContext" where
  "dialogHandler d s = s\<lparr>dialog := Some d\<rparr>"

definition getSelectedPage :: "collaborator \<Rightarrow> McpContext \<Rightarrow> error + page" where
  "getSelectedPage env s =
     (case selectedPage s of
        None \<Rightarrow> Inl NO_PAGE_SELECTED
      | Some page \<Rightarrow>
          if page_isClosed env page then Inl SELECTED_PAGE_CLOSED else Inr page)"

definition getPageById :: "McpContext \<Rightarrow> nat \<Rightarrow> error + page" where
  "getPageById s pageId =
     (case find (\<lambda>p. pageIdMap s p = Some pageId) (pages s) of
        None \<Rightarrow> Inl NO_PAGE_FOUND
      | Some page \<Rightarrow> Inr page)"

definition getPageId :: "McpContext \<Rightarrow> page \<Rightarrow> nat option" where
  "getPageId s page = pageIdMap s page"

definition isPageSelected :: "McpContext \<Rightarrow> page \<Rightarrow> bool" where
  "isPageSelected s page = (selectedPage s = Some page)"

definition getPages :: "McpContext \<Rightarrow> page list" where
  "getPages s = pages s"

definition getTextSnapshot :: "McpContext \<Rightarrow> TextSnapshot option" where
  "getTextSnapshot s = textSnapshot s"

definition issue :: "call list \<Rightarrow> McpContext \<Rightarrow> McpContext" where
  "issue cs s = s\<lparr>calls := calls s @ cs\<rparr>"

definition closePage :: "McpContext \<Rightarrow> nat \<Rightarrow> unit outcome" where
  "closePage s pageId =
     (if length (pages s) = 1 then (Inl (Error CLOSE_PAGE_ERROR None), s)
      else case getPageById s pageId of
             Inl e \<Rightarrow> (Inl e, s)
           | Inr page \<Rightarrow> (Inr (), issue [Close page False] s))"

definition updateSelectedPageTimeouts :: "collaborator \<Rightarrow> McpContext \<Rightarrow> unit outcome" where
  "updateSelectedPageTimeouts env s =
     (case getSelectedPage env s of
        Inl e \<Rightarrow> (Inl e, s)
      | Inr page \<Rightarrow>
          (Inr (), issue [SetDefaultTimeout page DEFAULT_TIMEOUT,
                          SetDefaultNavigationTimeout page NAVIGATION_TIMEOUT] s))"

text \<open>
  \<^verbatim>\<open>selectPage\<close>. The two focus-emulation calls are started and not awaited; what they later
  log is not part of the method. An exception of \<^verbatim>\<open>#updateSelectedPageTimeouts\<close> leaves the
  method after the selection and the listener have been set.
\<close>

definition selectPage :: "collaborator \<Rightarrow> page \<Rightarrow> McpContext \<Rightarrow> unit outcome" where
  "selectPage env newPage s =
     (let s1 = (case selectedPage s of
                  None \<Rightarrow> s
                | Some oldPage \<Rightarrow> issue [Off_dialog oldPage, EmulateFocusedPage oldPage False] s);
          s2 = issue [On_dialog newPage] (s1\<lparr>selectedPage := Some newPage\<rparr>)
      in case updateSelectedPageTimeouts env s2 of
           (Inl e, s3) \<Rightarrow> (Inl e, s3)
         | (Inr u, s3) \<Rightarrow> (Inr (), issue [EmulateFocusedPage newPage True] s3))"

text \<open>The loop of \<^verbatim>\<open>createPagesSnapshot\<close> over all pages, on the side table and its counter.\<close>

fun assignPageIds :: "page list \<Rightarrow> (page \<rightharpoonup> nat) \<times> nat \<Rightarrow> (page \<rightharpoonup> nat) \<times> nat" where
  "assignPageIds [] st = st"
| "assignPageIds (page # rest) (m, n) =
     assignPageIds rest (if m page = None then (m(page \<mapsto> n), Suc n) else (m, n))"

definition isVisible :: "collaborator \<Rightarrow> McpContext \<Rightarrow> page \<Rightarrow> bool" where
  "isVisible env s page =
     (experimentalDevToolsDebugging (options s) \<or> \<not> startsWith (page_url env page) ''devtools://'')"

definition createPagesSnapshot :: "collaborator \<Rightarrow> McpContext \<Rightarrow> (page list) outcome" where
  "createPagesSnapshot env s =
     (let allPages = browser_pages env (experimentalIncludeAllPages (options s));
          (m, n) = assignPageIds allPages (pageIdMap s, nextPageId s);
          s1 = s\<lparr>pageIdMap := m, nextPageId := n\<rparr>;
          s2 = s1\<lparr>pages := filter (isVisible env s) allPages\<rparr>
      in if (case selectedPage s2 of None \<Rightarrow> True | Some sel \<Rightarrow> sel \<notin> set (pages s2))
            \<and> pages s2 \<noteq> []
         then (case selectPage env (hd (pages s2)) s2 of
                 (Inl e, s3) \<Rightarrow> (Inl e, s3)
               | (Inr u, s3) \<Rightarrow> (Inr (pages s3), s3))
         else (Inr (pages s2), s2))"

definition init :: "collaborator \<Rightarrow> McpContext \<Rightarrow> unit outcome" where
  "init env s =
     (case createPagesSnapshot env s of
        (Inl e, s1) \<Rightarrow> (Inl e, s1)
      | (Inr ps, s1) \<Rightarrow> (Inr (), s1))"

definition McpContext_from :: "collaborator \<Rightarrow> McpContextOptions \<Rightarrow> unit outcome" where
  "McpContext_from env opts = init env (McpContext_new opts)"

definition newPage :: "collaborator \<Rightarrow> McpContext \<Rightarrow> page outcome" where
  "newPage env s =
     (let page = browser_newPage env
      in case createPagesSnapshot env s of
           (Inl e, s1) \<Rightarrow> (Inl e, s1)
         | (Inr ps, s1) \<Rightarrow>
             (case selectPage env page s1 of
                (Inl e, s2) \<Rightarrow> (Inl e, s2)
              | (Inr u, s2) \<Rightarrow> (Inr page, s2)))"

text \<open>
  \<^verbatim>\<open>assignIds\<close>, the closure of \<^verbatim>\<open>createTextSnapshot\<close>. It reads \<^verbatim>\<open>snapshotId\<close> and updates the
  two captured variables \<^verbatim>\<open>idCounter\<close> and \<^verbatim>\<open>idToNode\<close>, which are threaded here. The object
  literal evaluates \<^verbatim>\<open>idCounter++\<close> before it maps over the children.
\<close>

definition mk_id :: "nat \<Rightarrow> nat \<Rightarrow> string" where
  "mk_id sid idCounter = string_of_nat sid @ ''_'' @ string_of_nat idCounter"

fun assignIds ::
    "nat \<Rightarrow> axnode \<Rightarrow> nat \<times> (string \<times> tsnode) list \<Rightarrow> tsnode \<times> nat \<times> (string \<times> tsnode) list"
  and assignIds_children ::
    "nat \<Rightarrow> axnode list \<Rightarrow> nat \<times> (string \<times> tsnode) list
       \<Rightarrow> tsnode list \<times> nat \<times> (string \<times> tsnode) list"
where
  "assignIds sid (SerializedAXNode r nm v cs e) (idCounter, m) =
     (let uid = mk_id sid idCounter;
          (kids, idCounter', m') =
             (case cs of
                None \<Rightarrow> ([], Suc idCounter, m)
              | Some l \<Rightarrow> assignIds_children sid l (Suc idCounter, m));
          v' = (if r = ''option''
                then (case nm of
                        None \<Rightarrow> v
                      | Some optionText \<Rightarrow>
                          if optionText \<noteq> [] then Some (StringValue optionText) else v)
                else v);
          nodeWithId = TextSnapshotNode uid r nm v' kids e
      in (nodeWithId, idCounter', AList.update uid nodeWithId m'))"
| "assignIds_children sid [] st = ([], st)"
| "assignIds_children sid (child # rest) st =
     (let (c, st1) = assignIds sid child st;
          (cs, st2) = assignIds_children sid rest st1
      in (c # cs, st2))"

definition createTextSnapshot :: "collaborator \<Rightarrow> bool \<Rightarrow> McpContext \<Rightarrow> unit outcome" where
  "createTextSnapshot env vb s =
     (case getSelectedPage env s of
        Inl e \<Rightarrow> (Inl e, s)
      | Inr page \<Rightarrow>
          (case accessibility_snapshot env page True (\<not> vb) of
             None \<Rightarrow> (Inr (), s)
           | Some rootNode \<Rightarrow>
               (let sid = nextSnapshotId s;
                    (rootNodeWithId, idCounter, m) = assignIds sid rootNode (0, [])
                in (Inr (),
                    s\<lparr>nextSnapshotId := Suc sid,
                      textSnapshot := Some \<lparr>root = rootNodeWithId, idToNode = m,
                        snapshotId = string_of_nat sid, selectedElementUid = None,
                        hasSelectedElement = False, verbose = vb\<rparr>\<rparr>))))"

definition getAXNodeByUid :: "McpContext \<Rightarrow> string \<Rightarrow> tsnode option" where
  "getAXNodeByUid s uid =
     (case textSnapshot s of None \<Rightarrow> None | Some t \<Rightarrow> map_of (idToNode t) uid)"

definition getElementByUid :: "collaborator \<Rightarrow> McpContext \<Rightarrow> string \<Rightarrow> error + element_handle" where
  "getElementByUid env s uid =
     (case textSnapshot s of
        None \<Rightarrow> Inl NO_SNAPSHOT
      | Some t \<Rightarrow>
          if length (idToNode t) = 0 then Inl NO_SNAPSHOT
          else if snapshotId t \<noteq> hd (js_split CHR ''_'' uid) then Inl STALE_SNAPSHOT
          else (case map_of (idToNode t) uid of
                  None \<Rightarrow> Inl NO_SUCH_ELEMENT
                | Some node \<Rightarrow>
                    (case node_elementHandle env (ts_element node) of
                       None \<Rightarrow> Inl NO_SUCH_ELEMENT
                     | Some h \<Rightarrow> Inr h)))"

definition saveFile :: "collaborator \<Rightarrow> string \<Rightarrow> string \<Rightarrow> McpContext \<Rightarrow> string outcome" where
  "saveFile env data filename s =
     (let filePath = path_resolve env filename
      in case fs_writeFile env filePath data of
           None \<Rightarrow> (Inr filename, s\<lparr>files := (files s)(filePath \<mapsto> data)\<rparr>)
         | Some err \<Rightarrow>
             (Inl (Error ''Could not save a screenshot to a file'' (Some err)),
              issue [Logger err] s))"

section \<open>McpResponse\<close>

definition McpResponse_new :: McpResponse where
  "McpResponse_new =
     \<lparr>includePages = False, snapshotParams = None, textResponseLines = [], images = []\<rparr>"

definition setIncludePages :: "bool \<Rightarrow> McpResponse \<Rightarrow> McpResponse" where
  "setIncludePages b r = r\<lparr>includePages := b\<rparr>"

definition includeSnapshot :: "SnapshotParams option \<Rightarrow> McpResponse \<Rightarrow> McpResponse" where
  "includeSnapshot params r =
     r\<lparr>snapshotParams := Some (case params of
         None \<Rightarrow> \<lparr>sp_verbose = Some False, sp_filePath = None\<rparr>
       | Some p \<Rightarrow> p)\<rparr>"

definition appendResponseLine :: "string \<Rightarrow> McpResponse \<Rightarrow> McpResponse" where
  "appendResponseLine v r = r\<lparr>textResponseLines := push (textResponseLines r) v\<rparr>"

definition attachImage :: "ImageContentData \<Rightarrow> McpResponse \<Rightarrow> McpResponse" where
  "attachImage v r = r\<lparr>images := push (images r) v\<rparr>"

text \<open>The template literal \<^verbatim>\<open>${context.getPageId(page)}\<close>: a number or \<^verbatim>\<open>undefined\<close>.\<close>

definition pageId_text :: "nat option \<Rightarrow> string" where
  "pageId_text i = (case i of None \<Rightarrow> ''undefined'' | Some n \<Rightarrow> string_of_nat n)"

definition dialog_notice :: "Dialog \<Rightarrow> string" where
  "dialog_notice d =
     (let defaultValueIfNeeded =
            (if dialog_type d = ''prompt''
             then '' (default value: '' @ DQ @ dialog_defaultValue d @ DQ @ '')''
             else [])
      in ''# Open dialog'' @ NL @
         dialog_type d @ '': '' @ dialog_message d @ defaultValueIfNeeded @ ''.'' @ NL @
         ''Call '' @ handleDialog_name @ '' to handle it before continuing.'')"

definition page_line :: "collaborator \<Rightarrow> McpContext \<Rightarrow> page \<Rightarrow> string" where
  "page_line env ctx page =
     pageId_text (getPageId ctx page) @ '': '' @ page_url env page @
     (if isPageSelected ctx page then '' [selected]'' else [])"

text \<open>\<^verbatim>\<open>format\<close>: the array \<^verbatim>\<open>response\<close> is built by pushes, the two loops are folds.\<close>

definition format ::
    "collaborator \<Rightarrow> string \<Rightarrow> McpResponse \<Rightarrow> McpContext \<Rightarrow> string option \<Rightarrow> content list" where
  "format env toolName r ctx formattedSnapshot =
     (let response0 = [''# '' @ toolName @ '' response''];
          response1 = foldl push response0 (textResponseLines r);
          response2 = (case getDialog ctx of
                         None \<Rightarrow> response1
                       | Some d \<Rightarrow> push response1 (dialog_notice d));
          response3 = (if includePages r
                       then (let parts = foldl (\<lambda>parts page. push parts (page_line env ctx page))
                                           [''## Pages''] (getPages ctx)
                             in foldl push response2 parts)
                       else response2);
          response4 = (case formattedSnapshot of
                         None \<Rightarrow> response3
                       | Some fs \<Rightarrow>
                           if fs \<noteq> []
                           then push (push response3 ''## Latest page snapshot'') fs
                           else response3)
      in TextContent (join NL response4)
         # map (\<lambda>imageData. ImageContent (img_data imageData) (img_mimeType imageData)) (images r))"

definition handle :: "collaborator \<Rightarrow> string \<Rightarrow> McpResponse \<Rightarrow> McpContext \<Rightarrow> (content list) outcome" where
  "handle env toolName r s =
     (case (if includePages r then createPagesSnapshot env s else (Inr [], s)) of
        (Inl e, s1) \<Rightarrow> (Inl e, s1)
      | (Inr ps, s1) \<Rightarrow>
          (case snapshotParams r of
             None \<Rightarrow> (Inr (format env toolName r s1 None), s1)
           | Some params \<Rightarrow>
               (case createTextSnapshot env
                       (case sp_verbose params of None \<Rightarrow> False | Some b \<Rightarrow> b) s1 of
                  (Inl e, s2) \<Rightarrow> (Inl e, s2)
                | (Inr u, s2) \<Rightarrow>
                    (case getTextSnapshot s2 of
                       None \<Rightarrow> (Inr (format env toolName r s2 None), s2)
                     | Some snapshot \<Rightarrow>
                         if truthy (sp_filePath params)
                         then (case saveFile env (formatSnapshotNode env (root snapshot) snapshot)
                                       (the (sp_filePath params)) s2 of
                                 (Inl e, s3) \<Rightarrow> (Inl e, s3)
                               | (Inr f, s3) \<Rightarrow>
                                   (Inr (format env toolName r s3
                                          (Some (''Saved snapshot to '' @ the (sp_filePath params) @ ''.''))),
                                    s3))
                         else (Inr (format env toolName r s2
                                      (Some (formatSnapshotNode env (root snapshot) snapshot))),
                               s2)))))"

section \<open>Observations used in the statements\<close>

text \<open>The value of a decimal numeral, the inverse of \<^const>\<open>string_of_nat\<close>.\<close>

definition digit_val :: "char \<Rightarrow> nat" where
  "digit_val c = of_char c - 48"

definition nat_of_string :: "string \<Rightarrow> nat" where
  "nat_of_string s = foldl (\<lambda>a c. 10 * a + digit_val c) 0 s"

text \<open>The nodes of a tree depth-first in pre-order: a node, then its children's subtrees.\<close>

fun ts_nodes :: "tsnode \<Rightarrow> tsnode list" where
  "ts_nodes (TextSnapshotNode i r nm v cs e) =
     TextSnapshotNode i r nm v cs e # concat (map ts_nodes cs)"

fun ax_nodes :: "axnode \<Rightarrow> axnode list" where
  "ax_nodes (SerializedAXNode r nm v None e) = [SerializedAXNode r nm v None e]"
| "ax_nodes (SerializedAXNode r nm v (Some cs) e) =
     SerializedAXNode r nm v (Some cs) e # concat (map ax_nodes cs)"

definition uids :: "tsnode \<Rightarrow> string list" where
  "uids n = map ts_id (ts_nodes n)"

text \<open>
  The rule for option nodes as the specification words it: the value of a node whose role
  is \<^verbatim>\<open>option\<close> and whose name is present and not empty is that name; any other node keeps
  its value.
\<close>

definition captured_value :: "axnode \<Rightarrow> axvalue option" where
  "captured_value a =
     (if ax_role a = ''option'' \<and> ax_name a \<noteq> None \<and> ax_name a \<noteq> Some []
      then Some (StringValue (the (ax_name a)))
      else ax_value a)"

definition ts_view :: "tsnode \<Rightarrow> string \<times> string option \<times> axvalue option \<times> nat" where
  "ts_view t = (ts_role t, ts_name t, ts_value t, ts_element t)"

definition ax_view :: "axnode \<Rightarrow> string \<times> string option \<times> axvalue option \<times> nat" where
  "ax_view a = (ax_role a, ax_name a, captured_value a, ax_element a)"

text \<open>
  The driver's event emitter: \<^verbatim>\<open>on\<close> adds one registration of the handler, \<^verbatim>\<open>off\<close> removes
  one if there is any. \<open>dialogListeners cs p\<close> is the number of registrations of the dialog
  handler on page \<open>p\<close> after the calls \<open>cs\<close>.
\<close>

definition listener_step :: "page \<Rightarrow> nat \<Rightarrow> call \<Rightarrow> nat" where
  "listener_step p k c =
     (case c of
        On_dialog q \<Rightarrow> if q = p then Suc k else k
      | Off_dialog q \<Rightarrow> if q = p then k - 1 else k
      | _ \<Rightarrow> k)"

definition dialogListeners :: "call list \<Rightarrow> page \<Rightarrow> nat" where
  "dialogListeners cs p = foldl (listener_step p) 0 cs"

text \<open>A capture is successful when a usable page is selected and the driver returns a tree.\<close>

definition captures :: "collaborator \<Rightarrow> bool \<Rightarrow> McpContext \<Rightarrow> bool" where
  "captures env vb s =
     (case getSelectedPage env s of
        Inl e \<Rightarrow> False
      | Inr page \<Rightarrow> accessibility_snapshot env page True (\<not> vb) \<noteq> None)"

text \<open>
  The states a session can be in: \<open>reachable n s\<close> when \<open>s\<close> results from a new context by
  calls of its methods and dialog events, \<open>n\<close> of the calls being successful captures.
\<close>

inductive reachable :: "nat \<Rightarrow> McpContext \<Rightarrow> bool" where
  r_new: "reachable 0 (McpContext_new opts)"
| r_pages: "reachable n s \<Longrightarrow> reachable n (snd (createPagesSnapshot env s))"
| r_select: "reachable n s \<Longrightarrow> reachable n (snd (selectPage env p s))"
| r_close: "reachable n s \<Longrightarrow> reachable n (snd (closePage s i))"
| r_no_capture:
    "reachable n s \<Longrightarrow> \<not> captures env vb s \<Longrightarrow> reachable n (snd (createTextSnapshot env vb s))"
| r_capture:
    "reachable n s \<Longrightarrow> captures env vb s \<Longrightarrow> reachable (Suc n) (snd (createTextSnapshot env vb s))"
| r_save: "reachable n s \<Longrightarrow> reachable n (snd (saveFile env d f s))"
| r_dialog: "reachable n s \<Longrightarrow> reachable n (dialogHandler d s)"
| r_clear: "reachable n s \<Longrightarrow> reachable n (clearDialog s)"

text \<open>
  The two halves of \<^verbatim>\<open>createPagesSnapshot\<close>: the state once the side table and the page list
  are updated, and the condition under which the first listed page is then selected.
\<close>

definition refreshed :: "collaborator \<Rightarrow> McpContext \<Rightarrow> McpContext" where
  "refreshed env s =
     (let allPages = browser_pages env (experimentalIncludeAllPages (options s));
          (m, n) = assignPageIds allPages (pageIdMap s, nextPageId s)
      in s\<lparr>pageIdMap := m, nextPageId := n, pages := filter (isVisible env s) allPages\<rparr>)"

definition needs_select :: "McpContext \<Rightarrow> bool" where
  "needs_select s =
     ((case selectedPage s of None \<Rightarrow> True | Some sel \<Rightarrow> sel \<notin> set (pages s)) \<and> pages s \<noteq> [])"

section \<open>An example session\<close>

text \<open>
  A page with a button, a text input and a select with one option; a second page that is a
  DevTools window.
\<close>

definition demo_tree :: axnode where
  "demo_tree =
     SerializedAXNode ''RootWebArea'' (Some ''Test'') None (Some [
       SerializedAXNode ''button'' (Some ''Click me'') None None 1,
       SerializedAXNode ''textbox'' None (Some (StringValue ''Input'')) None 2,
       SerializedAXNode ''combobox'' None (Some (StringValue ''Bar'')) (Some [
         SerializedAXNode ''option'' (Some ''Foo'') None None 4]) 3]) 0"

definition demo_env :: collaborator where
  "demo_env =
     \<lparr>browser_pages = (\<lambda>b. [0, 1]),
      browser_newPage = 2,
      page_url = (\<lambda>p. if p = 1 then ''devtools://devtools/bundled/inspector.html''
                       else ''about:blank''),
      page_isClosed = (\<lambda>p. False),
      accessibility_snapshot = (\<lambda>p includeIframes interestingOnly.
         if p = 0 then Some demo_tree else None),
      node_elementHandle = (\<lambda>e. if e = 2 then None else Some (100 + e)),
      formatSnapshotNode = (\<lambda>n t. ''uid='' @ ts_id n @ '' '' @ ts_role n),
      path_resolve = (\<lambda>f. ''/work/'' @ f),
      fs_writeFile = (\<lambda>p d. if p = ''/work/readonly.txt''
                              then Some (Error ''EACCES: permission denied'' None) else None)\<rparr>"

definition demo_opts :: McpContextOptions where
  "demo_opts = \<lparr>experimentalDevToolsDebugging = False, experimentalIncludeAllPages = None\<rparr>"

text \<open>The context after \<^verbatim>\<open>McpContext.from\<close>, and after one capture.\<close>

definition demo_ctx0 :: McpContext where
  "demo_ctx0 = snd (McpContext_from demo_env demo_opts)"

definition demo_ctx1 :: McpContext where
  "demo_ctx1 = snd (createTextSnapshot demo_env False demo_ctx0)"

text \<open>The same driver on a blank page: it returns no accessibility tree.\<close>

definition demo_env_blank :: collaborator where
  "demo_env_blank = demo_env\<lparr>accessibility_snapshot := (\<lambda>p includeIframes interestingOnly. None)\<rparr>"


text \<open>Both pages are ordinary pages; the context after \<^verbatim>\<open>McpContext.from\<close>.\<close>

definition demo_env_two :: collaborator where
  "demo_env_two = demo_env\<lparr>page_url := (\<lambda>p. ''about:blank'')\<rparr>"

definition demo_ctx2 :: McpContext where
  "demo_ctx2 = snd (McpContext_from demo_env_two demo_opts)"

text \<open>A pending prompt dialog, and a response with one line, the page list and one image.\<close>

definition demo_dialog :: Dialog where
  "demo_dialog =
     \<lparr>dialog_type = ''prompt'', dialog_message = ''message'', dialog_defaultValue = ''default''\<rparr>"

definition demo_ctx_dialog :: McpContext where
  "demo_ctx_dialog = dialogHandler demo_dialog demo_ctx0"

definition demo_response :: McpResponse where
  "demo_response =
     attachImage \<lparr>img_data = ''imageBase64'', img_mimeType = ''image/png''\<rparr>
       (setIncludePages True (appendResponseLine ''Testing 1'' McpResponse_new))"

text \<open>Responses that ask for the snapshot in a file: a writable and a read-only path.\<close>

definition demo_response_file :: McpResponse where
  "demo_response_file =
     includeSnapshot (Some \<lparr>sp_verbose = Some False, sp_filePath = Some ''snap.txt''\<rparr>)
       McpResponse_new"

definition demo_response_readonly :: McpResponse where
  "demo_response_readonly =
     includeSnapshot (Some \<lparr>sp_verbose = Some False, sp_filePath = Some ''readonly.txt''\<rparr>)
       McpResponse_new"

text \<open>
  A response that asks for the snapshot inline, alone and together with one line, the page
  list and one image.
\<close>

definition demo_response_snapshot :: McpResponse where
  "demo_response_snapshot = includeSnapshot None McpResponse_new"

definition demo_response_inline :: McpResponse where
  "demo_response_inline = includeSnapshot None demo_response"

section \<open>Decimal numerals and uids\<close>

lemma digit_val_digit_char: "d < 10 \<Longrightarrow> digit_val (digit_char d) = d"
  by (simp add: digit_val_def digit_char_def)

lemma nat_of_string_snoc: "nat_of_string (s @ [c]) = 10 * nat_of_string s + digit_val c"
  by (simp add: nat_of_string_def)

lemma nat_of_string_of_nat: "nat_of_string (string_of_nat n) = n"
proof (induction n rule: string_of_nat.induct)
  case (1 n)
  show ?case
  proof (cases "n < 10")
    case True
    then show ?thesis
      by (subst string_of_nat.simps) (simp add: nat_of_string_def digit_val_digit_char)
  next
    case False
    with 1 have "nat_of_string (string_of_nat (n div 10)) = n div 10" by simp
    with False show ?thesis
      by (subst string_of_nat.simps) (simp add: nat_of_string_snoc digit_val_digit_char)
  qed
qed

lemma string_of_nat_inj: "string_of_nat a = string_of_nat b \<Longrightarrow> a = b"
  by (metis nat_of_string_of_nat)

lemma digit_char_not_underscore: "d < 10 \<Longrightarrow> digit_char d \<noteq> CHR ''_''"
proof
  assume d: "d < 10" and e: "digit_char d = CHR ''_''"
  have "digit_val (digit_char d) = d" using d by (rule digit_val_digit_char)
  with e have "d = digit_val CHR ''_''" by simp
  with d show False by (simp add: digit_val_def)
qed

lemma string_of_nat_no_underscore: "CHR ''_'' \<notin> set (string_of_nat n)"
proof (induction n rule: string_of_nat.induct)
  case (1 n)
  show ?case
  proof (cases "n < 10")
    case True
    then show ?thesis
      using digit_char_not_underscore [of n] by (subst string_of_nat.simps) auto
  next
    case False
    with 1 have "CHR ''_'' \<notin> set (string_of_nat (n div 10))" by simp
    with False show ?thesis
      using digit_char_not_underscore [of "n mod 10"] by (subst string_of_nat.simps) auto
  qed
qed

lemma hd_js_split: "hd (js_split sep s) = takeWhile (\<lambda>c. c \<noteq> sep) s"
  by (induction s) auto

lemma hd_js_split_mk_id: "hd (js_split CHR ''_'' (mk_id sid k)) = string_of_nat sid"
  using string_of_nat_no_underscore [of sid]
  by (simp add: hd_js_split mk_id_def takeWhile_append)

lemma mk_id_inj: "mk_id sid a = mk_id sid b \<Longrightarrow> a = b"
  by (simp add: mk_id_def string_of_nat_inj)

lemma assignIds_count:
  "assignIds sid node (c, m) = (n', c', m') \<Longrightarrow> c' = c + length (ax_nodes node)"
  "assignIds_children sid l (c, m) = (ns, c', m') \<Longrightarrow> c' = c + length (concat (map ax_nodes l))"
proof (induction sid node "(c, m)" and sid l "(c, m)" arbitrary: c m n' c' m' and c m ns c' m'
       rule: assignIds_assignIds_children.induct)
  case (1 sid r nm v cs e idCounter m)
  then show ?case
    by (cases cs) (auto simp: Let_def split: prod.splits)
next
  case (2 sid)
  then show ?case by simp
next
  case (3 sid child rest)
  from 3(3) obtain x c1 m1 xs where
    a: "assignIds sid child (c, m) = (x, c1, m1)" and
    b: "assignIds_children sid rest (c1, m1) = (xs, c', m')"
    by (auto simp: Let_def split: prod.splits)
  from 3(1)[OF a] 3(2)[OF refl a[symmetric] b] show ?case by simp
qed

lemma assignIds_uids:
  "assignIds sid node (c, m) = (n', c', m') \<Longrightarrow> map ts_id (ts_nodes n') = map (mk_id sid) [c..<c']"
  "assignIds_children sid l (c, m) = (ns, c', m')
     \<Longrightarrow> map ts_id (concat (map ts_nodes ns)) = map (mk_id sid) [c..<c']"
proof (induction sid node "(c, m)" and sid l "(c, m)" arbitrary: c m n' c' m' and c m ns c' m'
       rule: assignIds_assignIds_children.induct)
  case (1 sid r nm v cs e idCounter m)
  show ?case
  proof (cases cs)
    case None
    with 1(2) show ?thesis by (auto simp: Let_def)
  next
    case (Some l)
    with 1(2) obtain kids mm where k: "assignIds_children sid l (Suc idCounter, m) = (kids, c', mm)"
      and n': "n' = TextSnapshotNode (mk_id sid idCounter) r nm
          (if r = ''option'' then (case nm of None \<Rightarrow> v | Some t \<Rightarrow> if t \<noteq> [] then Some (StringValue t) else v) else v) kids e"
      by (auto simp: Let_def split: prod.splits)
    from 1(1)[OF refl Some k]
    have ih: "map ts_id (concat (map ts_nodes kids)) = map (mk_id sid) [Suc idCounter..<c']" .
    from assignIds_count(2)[OF k] have "idCounter < c'" by simp
    then have "[idCounter..<c'] = idCounter # [Suc idCounter..<c']" by (simp add: upt_conv_Cons)
    with ih n' show ?thesis by simp
  qed
next
  case (2 sid)
  then show ?case by simp
next
  case (3 sid child rest)
  from 3(3) obtain x c1 m1 xs where
    a: "assignIds sid child (c, m) = (x, c1, m1)" and
    b: "assignIds_children sid rest (c1, m1) = (xs, c', m')" and ns: "ns = x # xs"
    by (auto simp: Let_def split: prod.splits)
  from 3(1)[OF a] have h1: "map ts_id (ts_nodes x) = map (mk_id sid) [c..<c1]" .
  from 3(2)[OF refl a[symmetric] b] have h2:
    "map ts_id (concat (map ts_nodes xs)) = map (mk_id sid) [c1..<c']" by simp
  from assignIds_count(1)[OF a] assignIds_count(2)[OF b] have "c \<le> c1" "c1 \<le> c'" by simp_all
  then have "[c..<c'] = [c..<c1] @ [c1..<c']"
    by (metis le_Suc_ex upt_add_eq_append)
  with h1 h2 ns show ?case by simp
qed


lemma inj_mk_id: "inj (mk_id sid)"
  by (rule injI) (rule mk_id_inj)

lemma mk_id_mem: "mk_id sid a \<in> mk_id sid ` A \<longleftrightarrow> a \<in> A"
  by (rule inj_image_mem_iff [OF inj_mk_id])

lemma assignIds_view:
  "assignIds sid node (c, m) = (n', c', m') \<Longrightarrow> map ts_view (ts_nodes n') = map ax_view (ax_nodes node)"
  "assignIds_children sid l (c, m) = (ns, c', m')
     \<Longrightarrow> map ts_view (concat (map ts_nodes ns)) = map ax_view (concat (map ax_nodes l))"
proof (induction sid node "(c, m)" and sid l "(c, m)" arbitrary: c m n' c' m' and c m ns c' m'
       rule: assignIds_assignIds_children.induct)
  case (1 sid r nm v cs e idCounter m)
  show ?case
  proof (cases cs)
    case None
    with 1(2) show ?thesis
      by (auto simp: Let_def ts_view_def ax_view_def captured_value_def split: option.splits)
  next
    case (Some l)
    with 1(2) obtain kids mm where k: "assignIds_children sid l (Suc idCounter, m) = (kids, c', mm)"
      and n': "n' = TextSnapshotNode (mk_id sid idCounter) r nm
          (if r = ''option'' then (case nm of None \<Rightarrow> v | Some t \<Rightarrow> if t \<noteq> [] then Some (StringValue t) else v) else v) kids e"
      by (auto simp: Let_def split: prod.splits)
    from 1(1)[OF refl Some k]
    have ih: "map ts_view (concat (map ts_nodes kids)) = map ax_view (concat (map ax_nodes l))" .
    have "ts_view n' = ax_view (SerializedAXNode r nm v cs e)"
      using n' by (auto simp: ts_view_def ax_view_def captured_value_def split: option.splits)
    with ih n' Some show ?thesis by simp
  qed
next
  case (2 sid)
  then show ?case by simp
next
  case (3 sid child rest)
  from 3(3) obtain x c1 m1 xs where
    a: "assignIds sid child (c, m) = (x, c1, m1)" and
    b: "assignIds_children sid rest (c1, m1) = (xs, c', m')" and ns: "ns = x # xs"
    by (auto simp: Let_def split: prod.splits)
  from 3(1)[OF a] 3(2)[OF refl a[symmetric] b] ns show ?case by simp
qed

lemma assignIds_idToNode:
  "assignIds sid node (c, m) = (n', c', m') \<Longrightarrow>
     (\<forall>u. u \<notin> ts_id ` set (ts_nodes n') \<longrightarrow> map_of m' u = map_of m u) \<and>
     (\<forall>x \<in> set (ts_nodes n'). map_of m' (ts_id x) = Some x)"
  "assignIds_children sid l (c, m) = (ns, c', m') \<Longrightarrow>
     (\<forall>u. u \<notin> ts_id ` set (concat (map ts_nodes ns)) \<longrightarrow> map_of m' u = map_of m u) \<and>
     (\<forall>x \<in> set (concat (map ts_nodes ns)). map_of m' (ts_id x) = Some x)"
proof (induction sid node "(c, m)" and sid l "(c, m)" arbitrary: c m n' c' m' and c m ns c' m'
       rule: assignIds_assignIds_children.induct)
  case (1 sid r nm v cs e idCounter m)
  show ?case
  proof (cases cs)
    case None
    with 1(2) show ?thesis by (auto simp: Let_def update_conv')
  next
    case (Some l)
    with 1(2) obtain kids mm v' where k: "assignIds_children sid l (Suc idCounter, m) = (kids, c', mm)"
      and n': "n' = TextSnapshotNode (mk_id sid idCounter) r nm v' kids e"
      and m': "m' = AList.update (mk_id sid idCounter) n' mm"
      by (auto simp: Let_def split: prod.splits)
    from 1(1)[OF refl Some k]
    have ih1: "\<And>u. u \<notin> ts_id ` set (concat (map ts_nodes kids)) \<Longrightarrow> map_of mm u = map_of m u"
      and ih2: "\<And>x. x \<in> set (concat (map ts_nodes kids)) \<Longrightarrow> map_of mm (ts_id x) = Some x"
      by blast+
    have ids: "ts_id ` set (concat (map ts_nodes kids)) = mk_id sid ` {Suc idCounter..<c'}"
      using assignIds_uids(2)[OF k] by (metis atLeastLessThan_upt image_set)
    have fresh: "mk_id sid idCounter \<notin> ts_id ` set (concat (map ts_nodes kids))"
      unfolding ids mk_id_mem by simp
    have nodes: "set (ts_nodes n') = insert n' (set (concat (map ts_nodes kids)))"
      using n' by simp
    have idn: "ts_id n' = mk_id sid idCounter" using n' by simp
    show ?thesis
    proof (intro conjI allI impI ballI)
      fix u assume "u \<notin> ts_id ` set (ts_nodes n')"
      then have "u \<noteq> mk_id sid idCounter" "u \<notin> ts_id ` set (concat (map ts_nodes kids))"
        unfolding nodes using idn by auto
      then show "map_of m' u = map_of m u"
        using ih1 by (simp add: m' update_conv')
    next
      fix x assume "x \<in> set (ts_nodes n')"
      then consider "x = n'" | "x \<in> set (concat (map ts_nodes kids))" unfolding nodes by blast
      then show "map_of m' (ts_id x) = Some x"
      proof cases
        case 1
        then show ?thesis by (simp add: m' update_conv' idn)
      next
        case 2
        then have "ts_id x \<noteq> mk_id sid idCounter" using fresh by (metis imageI)
        with 2 ih2 show ?thesis by (simp add: m' update_conv')
      qed
    qed
  qed
next
  case (2 sid)
  then show ?case by simp
next
  case (3 sid child rest)
  from 3(3) obtain x c1 m1 xs where
    a: "assignIds sid child (c, m) = (x, c1, m1)" and
    b: "assignIds_children sid rest (c1, m1) = (xs, c', m')" and ns: "ns = x # xs"
    by (auto simp: Let_def split: prod.splits)
  from 3(1)[OF a]
  have a1: "\<And>u. u \<notin> ts_id ` set (ts_nodes x) \<Longrightarrow> map_of m1 u = map_of m u"
    and a2: "\<And>y. y \<in> set (ts_nodes x) \<Longrightarrow> map_of m1 (ts_id y) = Some y"
    by blast+
  from 3(2)[OF refl a[symmetric] b]
  have b1: "\<And>u. u \<notin> ts_id ` set (concat (map ts_nodes xs)) \<Longrightarrow> map_of m' u = map_of m1 u"
    and b2: "\<And>y. y \<in> set (concat (map ts_nodes xs)) \<Longrightarrow> map_of m' (ts_id y) = Some y"
    by blast+
  have idx: "ts_id ` set (ts_nodes x) = mk_id sid ` {c..<c1}"
    using assignIds_uids(1)[OF a] by (metis atLeastLessThan_upt image_set)
  have idxs: "ts_id ` set (concat (map ts_nodes xs)) = mk_id sid ` {c1..<c'}"
    using assignIds_uids(2)[OF b] by (metis atLeastLessThan_upt image_set)
  have disj: "\<And>u. u \<in> ts_id ` set (ts_nodes x) \<Longrightarrow> u \<notin> ts_id ` set (concat (map ts_nodes xs))"
    unfolding idx idxs by (auto dest: mk_id_inj)
  have nodes: "set (concat (map ts_nodes ns)) = set (ts_nodes x) \<union> set (concat (map ts_nodes xs))"
    using ns by simp
  show ?case
  proof (intro conjI allI impI ballI)
    fix u assume "u \<notin> ts_id ` set (concat (map ts_nodes ns))"
    then have "u \<notin> ts_id ` set (ts_nodes x)" "u \<notin> ts_id ` set (concat (map ts_nodes xs))"
      unfolding nodes by auto
    then show "map_of m' u = map_of m u" using a1 b1 by simp
  next
    fix y assume "y \<in> set (concat (map ts_nodes ns))"
    then consider "y \<in> set (ts_nodes x)" | "y \<in> set (concat (map ts_nodes xs))"
      unfolding nodes by blast
    then show "map_of m' (ts_id y) = Some y"
    proof cases
      case 1
      then have "ts_id y \<notin> ts_id ` set (concat (map ts_nodes xs))" using disj by (metis imageI)
      with 1 a2 b1 show ?thesis by simp
    next
      case 2
      then show ?thesis by (rule b2)
    qed
  qed
qed

lemma createPagesSnapshot_state:
  "snd (createPagesSnapshot env s) =
     (if needs_select (refreshed env s)
      then snd (selectPage env (hd (pages (refreshed env s))) (refreshed env s))
      else refreshed env s)"
  by (simp add: createPagesSnapshot_def refreshed_def needs_select_def Let_def
           split: prod.splits sum.splits)

lemma refreshed_frame:
  "textSnapshot (refreshed env s) = textSnapshot s"
  "nextSnapshotId (refreshed env s) = nextSnapshotId s"
  "selectedPage (refreshed env s) = selectedPage s"
  "calls (refreshed env s) = calls s"
  "dialog (refreshed env s) = dialog s"
  "options (refreshed env s) = options s"
  "files (refreshed env s) = files s"
  by (simp_all add: refreshed_def Let_def split: prod.splits)

lemma selectPage_frame:
  "textSnapshot (snd (selectPage env p s)) = textSnapshot s"
  "nextSnapshotId (snd (selectPage env p s)) = nextSnapshotId s"
  "pages (snd (selectPage env p s)) = pages s"
  "pageIdMap (snd (selectPage env p s)) = pageIdMap s"
  "nextPageId (snd (selectPage env p s)) = nextPageId s"
  "dialog (snd (selectPage env p s)) = dialog s"
  "options (snd (selectPage env p s)) = options s"
  "files (snd (selectPage env p s)) = files s"
  "selectedPage (snd (selectPage env p s)) = Some p"
  by (simp_all add: selectPage_def updateSelectedPageTimeouts_def getSelectedPage_def issue_def
        Let_def split: option.splits)

lemma selectPage_calls:
  "calls (snd (selectPage env p s)) =
     calls s
     @ (case selectedPage s of None \<Rightarrow> []
        | Some oldPage \<Rightarrow> [Off_dialog oldPage, EmulateFocusedPage oldPage False])
     @ [On_dialog p]
     @ (if page_isClosed env p then []
        else [SetDefaultTimeout p DEFAULT_TIMEOUT, SetDefaultNavigationTimeout p NAVIGATION_TIMEOUT,
              EmulateFocusedPage p True])"
  by (simp add: selectPage_def updateSelectedPageTimeouts_def getSelectedPage_def issue_def
        Let_def split: option.splits)

lemma createPagesSnapshot_frame:
  "textSnapshot (snd (createPagesSnapshot env s)) = textSnapshot s"
  "nextSnapshotId (snd (createPagesSnapshot env s)) = nextSnapshotId s"
  by (simp_all add: createPagesSnapshot_state selectPage_frame refreshed_frame)

lemma closePage_frame:
  "textSnapshot (snd (closePage s i)) = textSnapshot s"
  "nextSnapshotId (snd (closePage s i)) = nextSnapshotId s"
  "selectedPage (snd (closePage s i)) = selectedPage s"
  "pages (snd (closePage s i)) = pages s"
  "pageIdMap (snd (closePage s i)) = pageIdMap s"
  "nextPageId (snd (closePage s i)) = nextPageId s"
  by (simp_all add: closePage_def issue_def split: sum.splits)

lemma closePage_calls:
  "calls (snd (closePage s i)) = calls s \<or> (\<exists>p. calls (snd (closePage s i)) = calls s @ [Close p False])"
  by (simp add: closePage_def issue_def split: sum.splits)

lemma saveFile_frame:
  "textSnapshot (snd (saveFile env d f s)) = textSnapshot s"
  "nextSnapshotId (snd (saveFile env d f s)) = nextSnapshotId s"
  "selectedPage (snd (saveFile env d f s)) = selectedPage s"
  "pages (snd (saveFile env d f s)) = pages s"
  "pageIdMap (snd (saveFile env d f s)) = pageIdMap s"
  "nextPageId (snd (saveFile env d f s)) = nextPageId s"
  by (simp_all add: saveFile_def issue_def Let_def split: option.splits)

lemma saveFile_calls:
  "calls (snd (saveFile env d f s)) = calls s \<or> (\<exists>e. calls (snd (saveFile env d f s)) = calls s @ [Logger e])"
  by (simp add: saveFile_def issue_def Let_def split: option.splits)

lemma createTextSnapshot_no_capture:
  "\<not> captures env vb s \<Longrightarrow> createTextSnapshot env vb s = (fst (createTextSnapshot env vb s), s)"
  by (auto simp: captures_def createTextSnapshot_def split: sum.splits option.splits)

lemma createTextSnapshot_capture:
  assumes "captures env vb s"
  shows "\<exists>page rootNode n' c' m'.
           getSelectedPage env s = Inr page \<and>
           accessibility_snapshot env page True (\<not> vb) = Some rootNode \<and>
           assignIds (nextSnapshotId s) rootNode (0, []) = (n', c', m') \<and>
           createTextSnapshot env vb s =
             (Inr (), s\<lparr>nextSnapshotId := Suc (nextSnapshotId s),
                        textSnapshot := Some \<lparr>root = n', idToNode = m',
                          snapshotId = string_of_nat (nextSnapshotId s), selectedElementUid = None,
                          hasSelectedElement = False, verbose = vb\<rparr>\<rparr>)"
proof -
  from assms obtain page rootNode where
    p: "getSelectedPage env s = Inr page" and
    t: "accessibility_snapshot env page True (\<not> vb) = Some rootNode"
    by (auto simp: captures_def split: sum.splits)
  obtain n' c' m' where a: "assignIds (nextSnapshotId s) rootNode (0, []) = (n', c', m')"
    by (metis prod_cases3)
  from p t a show ?thesis
    by (simp add: createTextSnapshot_def Let_def)
qed

lemma createTextSnapshot_frame:
  "selectedPage (snd (createTextSnapshot env vb s)) = selectedPage s"
  "pages (snd (createTextSnapshot env vb s)) = pages s"
  "pageIdMap (snd (createTextSnapshot env vb s)) = pageIdMap s"
  "nextPageId (snd (createTextSnapshot env vb s)) = nextPageId s"
  "calls (snd (createTextSnapshot env vb s)) = calls s"
  by (simp_all add: createTextSnapshot_def Let_def split: sum.splits option.splits prod.splits)

lemma assignIds_keys:
  assumes "assignIds sid node (0, []) = (n', c', m')"
  shows "m' \<noteq> []" and "map_of m' u \<noteq> None \<Longrightarrow> \<exists>k. u = mk_id sid k"
proof -
  have "n' \<in> set (ts_nodes n')" by (cases n') simp
  with assignIds_idToNode(1)[OF assms] have "map_of m' (ts_id n') = Some n'" by blast
  then show "m' \<noteq> []" by auto
next
  assume u: "map_of m' u \<noteq> None"
  have "u \<in> ts_id ` set (ts_nodes n')"
  proof (rule ccontr)
    assume "u \<notin> ts_id ` set (ts_nodes n')"
    with assignIds_idToNode(1)[OF assms] have "map_of m' u = map_of [] u" by blast
    with u show False by simp
  qed
  then have "u \<in> set (map ts_id (ts_nodes n'))" by simp
  then have "u \<in> set (map (mk_id sid) [0..<c'])"
    using assignIds_uids(1)[OF assms] by simp
  then show "\<exists>k. u = mk_id sid k" by auto
qed

lemma reachable_snapshot:
  assumes "reachable n s"
  shows "nextSnapshotId s = Suc n \<and>
         (n = 0 \<longrightarrow> textSnapshot s = None) \<and>
         (0 < n \<longrightarrow> (\<exists>t. textSnapshot s = Some t \<and> snapshotId t = string_of_nat n \<and>
                        idToNode t \<noteq> [] \<and>
                        (\<forall>u. map_of (idToNode t) u \<noteq> None \<longrightarrow> (\<exists>k. u = mk_id n k))))"
  using assms
proof (induction rule: reachable.induct)
  case (r_new opts)
  show ?case by (simp add: McpContext_new_def)
next
  case (r_pages n s env)
  then show ?case by (simp add: createPagesSnapshot_frame)
next
  case (r_select n s env p)
  then show ?case by (simp add: selectPage_frame)
next
  case (r_close n s i)
  then show ?case by (simp add: closePage_frame)
next
  case (r_no_capture n s env vb)
  from createTextSnapshot_no_capture[OF r_no_capture(2)]
  have "snd (createTextSnapshot env vb s) = s" by (metis snd_conv)
  with r_no_capture(3) show ?case by simp
next
  case (r_capture n s env vb)
  from createTextSnapshot_capture[OF r_capture(2)] obtain page rootNode n' c' m' where
    a: "assignIds (nextSnapshotId s) rootNode (0, []) = (n', c', m')" and
    c: "createTextSnapshot env vb s =
             (Inr (), s\<lparr>nextSnapshotId := Suc (nextSnapshotId s),
                        textSnapshot := Some \<lparr>root = n', idToNode = m',
                          snapshotId = string_of_nat (nextSnapshotId s), selectedElementUid = None,
                          hasSelectedElement = False, verbose = vb\<rparr>\<rparr>)"
    by blast
  from r_capture(3) have sid: "nextSnapshotId s = Suc n" by simp
  from assignIds_keys[OF a] sid c show ?case by simp
next
  case (r_save n s env d f)
  then show ?case by (simp add: saveFile_frame)
next
  case (r_dialog n s d)
  then show ?case by (simp add: dialogHandler_def)
next
  case (r_clear n s)
  then show ?case by (simp add: clearDialog_def)
qed

lemma dialogListeners_append:
  "dialogListeners (cs @ ds) p = foldl (listener_step p) (dialogListeners cs p) ds"
  by (simp add: dialogListeners_def)

lemma selectPage_listeners:
  assumes "\<forall>q. dialogListeners (calls s) q = (if selectedPage s = Some q then 1 else 0)"
  shows "dialogListeners (calls (snd (selectPage env p s))) q = (if q = p then 1 else 0)"
  using assms
  by (cases "selectedPage s")
     (auto simp: selectPage_calls dialogListeners_append listener_step_def)

lemma reachable_listeners:
  assumes "reachable n s"
  shows "dialogListeners (calls s) q = (if selectedPage s = Some q then 1 else 0)"
  using assms
proof (induction arbitrary: q rule: reachable.induct)
  case (r_new opts)
  show ?case by (simp add: McpContext_new_def dialogListeners_def)
next
  case (r_pages n s env)
  have "\<forall>q. dialogListeners (calls (refreshed env s)) q =
            (if selectedPage (refreshed env s) = Some q then 1 else 0)"
    using r_pages.IH by (simp add: refreshed_frame)
  from selectPage_listeners[OF this] r_pages.IH show ?case
    by (auto simp add: createPagesSnapshot_state selectPage_frame refreshed_frame)
next
  case (r_select n s env p)
  then have "\<forall>q. dialogListeners (calls s) q = (if selectedPage s = Some q then 1 else 0)"
    by blast
  from selectPage_listeners[OF this] show ?case by (auto simp: selectPage_frame)
next
  case (r_close n s i)
  from closePage_calls[of s i] r_close.IH[of q] show ?case
    by (auto simp: closePage_frame dialogListeners_append listener_step_def)
next
  case (r_no_capture n s env vb)
  then show ?case by (simp add: createTextSnapshot_frame)
next
  case (r_capture n s env vb)
  then show ?case by (simp add: createTextSnapshot_frame)
next
  case (r_save n s env d f)
  from saveFile_calls[of env d f s] r_save.IH[of q] show ?case
    by (auto simp: saveFile_frame dialogListeners_append listener_step_def)
next
  case (r_dialog n s d)
  then show ?case by (simp add: dialogHandler_def)
next
  case (r_clear n s)
  then show ?case by (simp add: clearDialog_def)
qed

section \<open>The example session, evaluated\<close>

lemma init_state: "snd (init env s) = snd (createPagesSnapshot env s)"
  by (simp add: init_def split: prod.splits sum.splits)

lemma reachable_demo_ctx0: "reachable 0 demo_ctx0"
  unfolding demo_ctx0_def McpContext_from_def init_state
  by (rule r_pages) (rule r_new)

lemma demo_ctx0_fields:
  "pages demo_ctx0 = [0]"
  "selectedPage demo_ctx0 = Some 0"
  "textSnapshot demo_ctx0 = None"
  "dialog demo_ctx0 = None"
  "pageIdMap demo_ctx0 0 = Some 1"
  "pageIdMap demo_ctx0 (Suc 0) = Some 2"
  "nextPageId demo_ctx0 = 3"
  "nextSnapshotId demo_ctx0 = 1"
  "calls demo_ctx0 = [On_dialog 0, SetDefaultTimeout 0 5000, SetDefaultNavigationTimeout 0 10000,
                      EmulateFocusedPage 0 True]"
  by (simp_all add: demo_ctx0_def McpContext_from_def init_def createPagesSnapshot_def
        McpContext_new_def demo_env_def demo_opts_def isVisible_def selectPage_def issue_def
        updateSelectedPageTimeouts_def getSelectedPage_def DEFAULT_TIMEOUT_def
        NAVIGATION_TIMEOUT_def)

lemma demo_selected: "getSelectedPage demo_env demo_ctx0 = Inr 0"
  by (simp add: demo_ctx0_fields getSelectedPage_def demo_env_def)

lemma demo_snapshot: "accessibility_snapshot demo_env 0 True True = Some demo_tree"
  by (simp add: demo_env_def)

lemma demo_captures: "captures demo_env False demo_ctx0"
  by (simp add: captures_def demo_selected demo_snapshot)

lemma reachable_demo_ctx1: "reachable (Suc 0) demo_ctx1"
  unfolding demo_ctx1_def
  by (rule r_capture [OF reachable_demo_ctx0 demo_captures])

lemma string_of_nat_digits:
  "string_of_nat 0 = ''0''" "string_of_nat 1 = ''1''" "string_of_nat 2 = ''2''"
  "string_of_nat 3 = ''3''" "string_of_nat 4 = ''4''" "string_of_nat 5 = ''5''"
  "string_of_nat (Suc 0) = ''1''" "string_of_nat (Suc (Suc 0)) = ''2''"
  "string_of_nat (Suc (Suc (Suc 0))) = ''3''" "string_of_nat (Suc (Suc (Suc (Suc 0)))) = ''4''"
  by code_simp+

lemma demo_ctx1_snapshot:
  "textSnapshot demo_ctx1 = Some \<lparr>root =
     TextSnapshotNode ''1_0'' ''RootWebArea'' (Some ''Test'') None
      [TextSnapshotNode ''1_1'' ''button'' (Some ''Click me'') None [] 1,
       TextSnapshotNode ''1_2'' ''textbox'' None (Some (StringValue ''Input'')) [] 2,
       TextSnapshotNode ''1_3'' ''combobox'' None (Some (StringValue ''Bar''))
        [TextSnapshotNode ''1_4'' ''option'' (Some ''Foo'') (Some (StringValue ''Foo'')) [] 4] 3] 0,
     idToNode =
       [(''1_1'', TextSnapshotNode ''1_1'' ''button'' (Some ''Click me'') None [] 1),
        (''1_2'', TextSnapshotNode ''1_2'' ''textbox'' None (Some (StringValue ''Input'')) [] 2),
        (''1_4'', TextSnapshotNode ''1_4'' ''option'' (Some ''Foo'') (Some (StringValue ''Foo'')) [] 4),
        (''1_3'', TextSnapshotNode ''1_3'' ''combobox'' None (Some (StringValue ''Bar''))
          [TextSnapshotNode ''1_4'' ''option'' (Some ''Foo'') (Some (StringValue ''Foo'')) [] 4] 3),
        (''1_0'',
         TextSnapshotNode ''1_0'' ''RootWebArea'' (Some ''Test'') None
          [TextSnapshotNode ''1_1'' ''button'' (Some ''Click me'') None [] 1,
           TextSnapshotNode ''1_2'' ''textbox'' None (Some (StringValue ''Input'')) [] 2,
           TextSnapshotNode ''1_3'' ''combobox'' None (Some (StringValue ''Bar''))
            [TextSnapshotNode ''1_4'' ''option'' (Some ''Foo'') (Some (StringValue ''Foo'')) [] 4] 3]
          0)],
     snapshotId = ''1'', selectedElementUid = None, hasSelectedElement = False, verbose = False\<rparr>"
  by (simp add: demo_ctx1_def createTextSnapshot_def demo_selected demo_snapshot demo_tree_def
        demo_ctx0_fields mk_id_def string_of_nat_digits Let_def)

section \<open>Snapshot capture\<close>

text \<open>
  Claim C1. A successful capture (a usable page is selected and the driver returns a tree)
  stores a snapshot whose id is the decimal text of the counter before the call. The uids
  of its nodes, read depth-first in pre-order, are \<^verbatim>\<open><snapshotId>_0\<close>, \<^verbatim>\<open><snapshotId>_1\<close>, ... in
  sequence, one per node of the tree: the sequence starts at 0 for each capture. They are
  pairwise distinct, the text before the first underscore of each is the snapshot id, and
  they are exactly the keys of \<^verbatim>\<open>idToNode\<close>.
\<close>

theorem createTextSnapshot_uids:
  assumes "getSelectedPage env s = Inr page"
    and "accessibility_snapshot env page True (\<not> vb) = Some rootNode"
  shows "\<exists>t. textSnapshot (snd (createTextSnapshot env vb s)) = Some t \<and>
           snapshotId t = string_of_nat (nextSnapshotId s) \<and>
           uids (root t) =
             map (\<lambda>k. snapshotId t @ ''_'' @ string_of_nat k) [0..<length (ax_nodes rootNode)] \<and>
           distinct (uids (root t)) \<and>
           (\<forall>u \<in> set (uids (root t)). hd (js_split CHR ''_'' u) = snapshotId t) \<and>
           (\<forall>u. (map_of (idToNode t) u \<noteq> None) = (u \<in> set (uids (root t))))"
proof -
  let ?sid = "nextSnapshotId s"
  obtain n' c' m' where a: "assignIds ?sid rootNode (0, []) = (n', c', m')"
    by (metis prod_cases3)
  let ?t = "\<lparr>root = n', idToNode = m', snapshotId = string_of_nat ?sid,
             selectedElementUid = None, hasSelectedElement = False, verbose = vb\<rparr>"
  have ts: "textSnapshot (snd (createTextSnapshot env vb s)) = Some ?t"
    using assms a by (simp add: createTextSnapshot_def Let_def)
  have c': "c' = length (ax_nodes rootNode)"
    using assignIds_count(1)[OF a] by simp
  have u: "uids n' = map (mk_id ?sid) [0..<c']"
    using assignIds_uids(1)[OF a] by (simp add: uids_def)
  have d: "distinct (uids n')"
    unfolding u by (simp add: distinct_map inj_on_def) (metis mk_id_inj)
  have p: "\<forall>u \<in> set (uids n'). hd (js_split CHR ''_'' u) = string_of_nat ?sid"
    unfolding u by (auto simp: hd_js_split_mk_id)
  have k: "(map_of m' w \<noteq> None) = (w \<in> set (uids n'))" for w
  proof
    assume "map_of m' w \<noteq> None"
    show "w \<in> set (uids n')"
    proof (rule ccontr)
      assume "w \<notin> set (uids n')"
      then have "w \<notin> ts_id ` set (ts_nodes n')" by (simp add: uids_def)
      with assignIds_idToNode(1)[OF a] have "map_of m' w = map_of [] w" by blast
      with \<open>map_of m' w \<noteq> None\<close> show False by simp
    qed
  next
    assume "w \<in> set (uids n')"
    then obtain x where "x \<in> set (ts_nodes n')" "w = ts_id x" by (auto simp: uids_def)
    with assignIds_idToNode(1)[OF a] show "map_of m' w \<noteq> None" by auto
  qed
  have m: "mk_id ?sid = (\<lambda>k. string_of_nat ?sid @ ''_'' @ string_of_nat k)"
    by (rule ext) (simp add: mk_id_def)
  show ?thesis
    using ts u d p k c' unfolding m by simp
qed

theorem createTextSnapshot_uids_witness:
  "getSelectedPage demo_env demo_ctx0 = Inr 0 \<and>
   accessibility_snapshot demo_env 0 True (\<not> False) = Some demo_tree \<and>
   (\<exists>t. textSnapshot (snd (createTextSnapshot demo_env False demo_ctx0)) = Some t \<and>
        snapshotId t = ''1'' \<and>
        uids (root t) = [''1_0'', ''1_1'', ''1_2'', ''1_3'', ''1_4''])"
proof -
  have h1: "getSelectedPage demo_env demo_ctx0 = Inr 0" by (rule demo_selected)
  have h2: "accessibility_snapshot demo_env 0 True (\<not> False) = Some demo_tree"
    by (simp add: demo_snapshot)
  have n: "nextSnapshotId demo_ctx0 = 1" by (simp add: demo_ctx0_fields)
  have l: "[0..<length (ax_nodes demo_tree)] = [0, 1, 2, 3, 4]"
    by (simp add: demo_tree_def upt_rec)
  from createTextSnapshot_uids [OF h1 h2] h1 h2 show ?thesis
    unfolding n l by (auto simp: string_of_nat_digits)
qed

text \<open>
  Claim C6. Node by node, in pre-order, the captured tree has the role, the name and the
  element of the driver's tree, and the value that the rule for option nodes gives
  (\<^const>\<open>captured_value\<close>): the name for a node of role \<^verbatim>\<open>option\<close> with a non-empty name, the
  original value otherwise. The nodes stored in \<^verbatim>\<open>idToNode\<close> are these same nodes.
\<close>

theorem createTextSnapshot_option_value:
  assumes "getSelectedPage env s = Inr page"
    and "accessibility_snapshot env page True (\<not> vb) = Some rootNode"
  shows "\<exists>t. textSnapshot (snd (createTextSnapshot env vb s)) = Some t \<and>
           map ts_view (ts_nodes (root t)) = map ax_view (ax_nodes rootNode) \<and>
           (\<forall>x \<in> set (ts_nodes (root t)). map_of (idToNode t) (ts_id x) = Some x)"
proof -
  obtain n' c' m' where a: "assignIds (nextSnapshotId s) rootNode (0, []) = (n', c', m')"
    by (metis prod_cases3)
  from assms a assignIds_view(1)[OF a] assignIds_idToNode(1)[OF a] show ?thesis
    by (simp add: createTextSnapshot_def Let_def)
qed

theorem createTextSnapshot_option_value_witness:
  "getSelectedPage demo_env demo_ctx0 = Inr 0 \<and>
   accessibility_snapshot demo_env 0 True (\<not> False) = Some demo_tree \<and>
   (\<exists>t. textSnapshot (snd (createTextSnapshot demo_env False demo_ctx0)) = Some t \<and>
        map ts_view (ts_nodes (root t)) =
          [(''RootWebArea'', Some ''Test'', None, 0),
           (''button'', Some ''Click me'', None, 1),
           (''textbox'', None, Some (StringValue ''Input''), 2),
           (''combobox'', None, Some (StringValue ''Bar''), 3),
           (''option'', Some ''Foo'', Some (StringValue ''Foo''), 4)])"
proof -
  have h1: "getSelectedPage demo_env demo_ctx0 = Inr 0" by (rule demo_selected)
  have h2: "accessibility_snapshot demo_env 0 True (\<not> False) = Some demo_tree"
    by (simp add: demo_snapshot)
  have v: "map ax_view (ax_nodes demo_tree) =
          [(''RootWebArea'', Some ''Test'', None, 0),
           (''button'', Some ''Click me'', None, 1),
           (''textbox'', None, Some (StringValue ''Input''), 2),
           (''combobox'', None, Some (StringValue ''Bar''), 3),
           (''option'', Some ''Foo'', Some (StringValue ''Foo''), 4)]"
    by (simp add: demo_tree_def ax_view_def captured_value_def)
  from createTextSnapshot_option_value [OF h1 h2] h1 h2 show ?thesis
    unfolding v by auto
qed

lemma demo_ctx1_selected: "getSelectedPage demo_env_blank demo_ctx1 = Inr 0"
  by (simp add: getSelectedPage_def demo_ctx1_def createTextSnapshot_frame demo_ctx0_fields
        demo_env_blank_def demo_env_def)

section \<open>Element resolution\<close>

lemma getElementByUid_snapshot:
  assumes "textSnapshot s = Some t" and "idToNode t \<noteq> []"
  shows "getElementByUid env s uid =
           (if takeWhile (\<lambda>c. c \<noteq> CHR ''_'') uid \<noteq> snapshotId t then Inl STALE_SNAPSHOT
            else case map_of (idToNode t) uid of
                   None \<Rightarrow> Inl NO_SUCH_ELEMENT
                 | Some node \<Rightarrow>
                     (case node_elementHandle env (ts_element node) of
                        None \<Rightarrow> Inl NO_SUCH_ELEMENT
                      | Some h \<Rightarrow> Inr h))"
  using assms by (auto simp: getElementByUid_def hd_js_split)

text \<open>
  Claim C2. In a session in which no capture has succeeded yet, \<^verbatim>\<open>getElementByUid\<close> fails with
  the no-snapshot error for every uid. After at least one successful capture there is a
  current snapshot, and the call fails with the stale-snapshot error when the text of the
  uid before its first underscore is not the snapshot's id; otherwise with the not-found
  error when the uid is no key of \<^verbatim>\<open>idToNode\<close> or when the driver resolves the node to no
  element; otherwise it returns the element handle.
\<close>

theorem getElementByUid_outcome:
  assumes "reachable n s"
  shows "(n = 0 \<longrightarrow> getElementByUid env s uid = Inl NO_SNAPSHOT) \<and>
         (0 < n \<longrightarrow>
            (\<exists>t. textSnapshot s = Some t \<and>
                 getElementByUid env s uid =
                   (if takeWhile (\<lambda>c. c \<noteq> CHR ''_'') uid \<noteq> snapshotId t
                    then Inl STALE_SNAPSHOT
                    else case map_of (idToNode t) uid of
                           None \<Rightarrow> Inl NO_SUCH_ELEMENT
                         | Some node \<Rightarrow>
                             (case node_elementHandle env (ts_element node) of
                                None \<Rightarrow> Inl NO_SUCH_ELEMENT
                              | Some h \<Rightarrow> Inr h))))"
proof (intro conjI impI)
  assume "n = 0"
  with reachable_snapshot[OF assms] have "textSnapshot s = None" by simp
  then show "getElementByUid env s uid = Inl NO_SNAPSHOT"
    by (simp add: getElementByUid_def)
next
  assume "0 < n"
  with reachable_snapshot[OF assms] obtain t where
    t: "textSnapshot s = Some t" and ne: "idToNode t \<noteq> []" by blast
  from getElementByUid_snapshot[OF t ne] t
  show "\<exists>t. textSnapshot s = Some t \<and>
                 getElementByUid env s uid =
                   (if takeWhile (\<lambda>c. c \<noteq> CHR ''_'') uid \<noteq> snapshotId t
                    then Inl STALE_SNAPSHOT
                    else case map_of (idToNode t) uid of
                           None \<Rightarrow> Inl NO_SUCH_ELEMENT
                         | Some node \<Rightarrow>
                             (case node_elementHandle env (ts_element node) of
                                None \<Rightarrow> Inl NO_SUCH_ELEMENT
                              | Some h \<Rightarrow> Inr h))"
    by blast
qed

theorem getElementByUid_outcome_witness:
  "reachable 0 demo_ctx0 \<and> reachable (Suc 0) demo_ctx1 \<and>
   getElementByUid demo_env demo_ctx0 ''1_1'' = Inl NO_SNAPSHOT \<and>
   getElementByUid demo_env demo_ctx1 ''1_1'' = Inr 101 \<and>
   getElementByUid demo_env demo_ctx1 ''1_2'' = Inl NO_SUCH_ELEMENT \<and>
   getElementByUid demo_env demo_ctx1 ''1_7'' = Inl NO_SUCH_ELEMENT \<and>
   getElementByUid demo_env demo_ctx1 ''2_1'' = Inl STALE_SNAPSHOT"
  using getElementByUid_outcome [OF reachable_demo_ctx0, of demo_env "''1_1''"]
    getElementByUid_outcome [OF reachable_demo_ctx1, of demo_env "''1_1''"]
    getElementByUid_outcome [OF reachable_demo_ctx1, of demo_env "''1_2''"]
    getElementByUid_outcome [OF reachable_demo_ctx1, of demo_env "''1_7''"]
    getElementByUid_outcome [OF reachable_demo_ctx1, of demo_env "''2_1''"]
    reachable_demo_ctx0 reachable_demo_ctx1
  by (simp add: demo_ctx1_snapshot demo_env_def)

text \<open>
  Claim C10. The comparison is plain string equality with the id of the current snapshot,
  the decimal text of the number \<open>n\<close> of successful captures. Whatever the text before the
  first underscore is, if it is not that id the call fails with the stale-snapshot error;
  this holds in particular for every uid \<^verbatim>\<open><m>_<k>\<close> whose number \<open>m\<close> is not \<open>n\<close>,
  larger or smaller. A uid without underscore is compared as a whole: it is stale unless it
  is the snapshot id itself, and then it is not found, no key being a bare number.
\<close>

theorem getElementByUid_stale:
  assumes "reachable n s" and "textSnapshot s = Some t"
  shows "snapshotId t = string_of_nat n \<and>
         (takeWhile (\<lambda>c. c \<noteq> CHR ''_'') uid \<noteq> snapshotId t
            \<longrightarrow> getElementByUid env s uid = Inl STALE_SNAPSHOT) \<and>
         (m \<noteq> n \<longrightarrow> getElementByUid env s (mk_id m k) = Inl STALE_SNAPSHOT) \<and>
         (CHR ''_'' \<notin> set uid \<longrightarrow>
            getElementByUid env s uid =
              (if uid = snapshotId t then Inl NO_SUCH_ELEMENT else Inl STALE_SNAPSHOT))"
proof -
  from reachable_snapshot[OF assms(1)] assms(2) have n: "0 < n" by (cases n) auto
  with reachable_snapshot[OF assms(1)] assms(2) have
    sid: "snapshotId t = string_of_nat n" and ne: "idToNode t \<noteq> []" and
    keys: "\<And>u. map_of (idToNode t) u \<noteq> None \<Longrightarrow> \<exists>k. u = mk_id n k"
    by auto
  note g = getElementByUid_snapshot[OF assms(2) ne]
  have stale: "takeWhile (\<lambda>c. c \<noteq> CHR ''_'') uid \<noteq> snapshotId t
            \<longrightarrow> getElementByUid env s uid = Inl STALE_SNAPSHOT"
    by (simp add: g)
  have "takeWhile (\<lambda>c. c \<noteq> CHR ''_'') (mk_id m k) = string_of_nat m"
    using hd_js_split_mk_id[of m k] by (simp add: hd_js_split)
  then have other: "m \<noteq> n \<longrightarrow> getElementByUid env s (mk_id m k) = Inl STALE_SNAPSHOT"
    using string_of_nat_inj[of m n] by (auto simp: g sid)
  have bare: "getElementByUid env s uid =
              (if uid = snapshotId t then Inl NO_SUCH_ELEMENT else Inl STALE_SNAPSHOT)"
    if u: "CHR ''_'' \<notin> set uid"
  proof -
    from u have tw: "takeWhile (\<lambda>c. c \<noteq> CHR ''_'') uid = uid"
      by (auto simp: takeWhile_eq_all_conv)
    have "map_of (idToNode t) uid = None"
    proof (rule ccontr)
      assume "map_of (idToNode t) uid \<noteq> None"
      from keys[OF this] obtain k where "uid = mk_id n k" by blast
      with u show False by (simp add: mk_id_def)
    qed
    then show ?thesis by (auto simp: g tw)
  qed
  from sid stale other bare show ?thesis by blast
qed

theorem getElementByUid_stale_witness:
  "reachable (Suc 0) demo_ctx1 \<and> (\<exists>t. textSnapshot demo_ctx1 = Some t \<and> snapshotId t = ''1'') \<and>
   getElementByUid demo_env demo_ctx1 ''2_0'' = Inl STALE_SNAPSHOT \<and>
   getElementByUid demo_env demo_ctx1 ''0_0'' = Inl STALE_SNAPSHOT \<and>
   getElementByUid demo_env demo_ctx1 ''abc_0'' = Inl STALE_SNAPSHOT \<and>
   getElementByUid demo_env demo_ctx1 ''_0'' = Inl STALE_SNAPSHOT \<and>
   getElementByUid demo_env demo_ctx1 ''7'' = Inl STALE_SNAPSHOT \<and>
   getElementByUid demo_env demo_ctx1 ''1'' = Inl NO_SUCH_ELEMENT"
  using getElementByUid_stale [OF reachable_demo_ctx1 demo_ctx1_snapshot, of "''2_0''" demo_env]
    getElementByUid_stale [OF reachable_demo_ctx1 demo_ctx1_snapshot, of "''0_0''" demo_env]
    getElementByUid_stale [OF reachable_demo_ctx1 demo_ctx1_snapshot, of "''abc_0''" demo_env]
    getElementByUid_stale [OF reachable_demo_ctx1 demo_ctx1_snapshot, of "''_0''" demo_env]
    getElementByUid_stale [OF reachable_demo_ctx1 demo_ctx1_snapshot, of "''7''" demo_env]
    getElementByUid_stale [OF reachable_demo_ctx1 demo_ctx1_snapshot, of "''1''" demo_env]
    reachable_demo_ctx1 demo_ctx1_snapshot
  by (simp add: string_of_nat_digits)

section \<open>Captures that find no tree\<close>

text \<open>
  Claim C5. When a usable page is selected and the driver returns no tree,
  \<^verbatim>\<open>createTextSnapshot\<close> returns normally and leaves the whole state as it was: the prior
  snapshot and the counter included. The counter advances by one in a successful capture
  and in no other call of \<^verbatim>\<open>createTextSnapshot\<close>; in a session with \<open>n\<close> successful captures
  it is \<open>n + 1\<close>.
\<close>

theorem createTextSnapshot_no_tree:
  "(getSelectedPage env s = Inr page \<and> accessibility_snapshot env page True (\<not> vb) = None
      \<longrightarrow> createTextSnapshot env vb s = (Inr (), s)) \<and>
   nextSnapshotId (snd (createTextSnapshot env vb s)) =
     (if captures env vb s then Suc (nextSnapshotId s) else nextSnapshotId s) \<and>
   (reachable n s \<longrightarrow> nextSnapshotId s = Suc n)"
proof (intro conjI impI)
  assume "getSelectedPage env s = Inr page \<and> accessibility_snapshot env page True (\<not> vb) = None"
  then show "createTextSnapshot env vb s = (Inr (), s)"
    by (simp add: createTextSnapshot_def)
next
  show "nextSnapshotId (snd (createTextSnapshot env vb s)) =
     (if captures env vb s then Suc (nextSnapshotId s) else nextSnapshotId s)"
  proof (cases "captures env vb s")
    case True
    from createTextSnapshot_capture[OF True] True show ?thesis by auto
  next
    case False
    from createTextSnapshot_no_capture[OF False] have "snd (createTextSnapshot env vb s) = s"
      by (metis snd_conv)
    with False show ?thesis by simp
  qed
next
  assume "reachable n s"
  from reachable_snapshot[OF this] show "nextSnapshotId s = Suc n" by simp
qed


theorem createTextSnapshot_no_tree_witness:
  "getSelectedPage demo_env_blank demo_ctx1 = Inr 0 \<and>
   accessibility_snapshot demo_env_blank 0 True (\<not> False) = None \<and>
   createTextSnapshot demo_env_blank False demo_ctx1 = (Inr (), demo_ctx1) \<and>
   \<not> captures demo_env_blank False demo_ctx1 \<and>
   nextSnapshotId (snd (createTextSnapshot demo_env_blank False demo_ctx1)) = 2 \<and>
   reachable (Suc 0) demo_ctx1 \<and> nextSnapshotId demo_ctx1 = 2"
proof -
  have h: "accessibility_snapshot demo_env_blank 0 True (\<not> False) = None"
    by (simp add: demo_env_blank_def)
  have c: "\<not> captures demo_env_blank False demo_ctx1"
    unfolding captures_def demo_ctx1_selected by (simp add: demo_env_blank_def)
  note t = createTextSnapshot_no_tree [of demo_env_blank demo_ctx1 0 False "Suc 0"]
  from t demo_ctx1_selected h
  have a: "createTextSnapshot demo_env_blank False demo_ctx1 = (Inr (), demo_ctx1)" by blast
  from t reachable_demo_ctx1 have b: "nextSnapshotId demo_ctx1 = Suc (Suc 0)" by blast
  have b2: "nextSnapshotId demo_ctx1 = 2" unfolding b by simp
  have b3: "nextSnapshotId (snd (createTextSnapshot demo_env_blank False demo_ctx1)) = 2"
    unfolding a snd_conv by (rule b2)
  from demo_ctx1_selected h a c b3 reachable_demo_ctx1 b2 show ?thesis
    by (intro conjI)
qed

section \<open>Page selection and the dialog listener\<close>

text \<open>
  Claim C7. In every state of a session the dialog handler is registered once on the
  selected page and on no other page, so at most one page has an active dialog listener.
  Calling \<^verbatim>\<open>selectPage(B)\<close> after \<^verbatim>\<open>selectPage(A)\<close> issues \<^verbatim>\<open>off\<close> on \<open>A\<close> and then \<^verbatim>\<open>on\<close> on \<open>B\<close>:
  afterwards \<open>B\<close> has the one registration and \<open>A\<close>, if it is another page, has none.
\<close>

theorem selectPage_single_listener:
  assumes "reachable n s"
  shows "(\<forall>p. dialogListeners (calls s) p = (if selectedPage s = Some p then 1 else 0)) \<and>
         (\<forall>p q. 0 < dialogListeners (calls s) p \<and> 0 < dialogListeners (calls s) q \<longrightarrow> p = q) \<and>
         (let sA = snd (selectPage envA A s); sB = snd (selectPage envB B sA)
          in dialogListeners (calls sA) A = 1 \<and> dialogListeners (calls sB) B = 1 \<and>
             (A \<noteq> B \<longrightarrow> dialogListeners (calls sB) A = 0) \<and>
             (\<exists>rest. calls sB =
                calls sA @ [Off_dialog A, EmulateFocusedPage A False, On_dialog B] @ rest))"
proof -
  let ?sA = "snd (selectPage envA A s)"
  let ?sB = "snd (selectPage envB B ?sA)"
  have one: "dialogListeners (calls s) p = (if selectedPage s = Some p then 1 else 0)" for p
    by (rule reachable_listeners [OF assms])
  have most: "p = q" if "0 < dialogListeners (calls s) p \<and> 0 < dialogListeners (calls s) q" for p q
    using that one[of p] one[of q] by (auto split: if_splits)
  have rA: "reachable n ?sA" by (rule r_select [OF assms])
  have rB: "reachable n ?sB" by (rule r_select [OF rA])
  have lA: "dialogListeners (calls ?sA) A = 1"
    using reachable_listeners [OF rA, of A] by (simp add: selectPage_frame)
  have lB: "dialogListeners (calls ?sB) p = (if p = B then 1 else 0)" for p
    using reachable_listeners [OF rB, of p] by (auto simp: selectPage_frame)
  have cB: "\<exists>rest. calls ?sB =
      calls ?sA @ [Off_dialog A, EmulateFocusedPage A False, On_dialog B] @ rest"
    by (simp add: selectPage_calls [of envB B ?sA] selectPage_frame)
  show ?thesis
    unfolding Let_def
  proof (intro conjI allI impI)
    fix p
    show "dialogListeners (calls s) p = (if selectedPage s = Some p then 1 else 0)"
      by (rule one)
  next
    fix p q
    assume "0 < dialogListeners (calls s) p \<and> 0 < dialogListeners (calls s) q"
    then show "p = q" by (rule most)
  next
    show "dialogListeners (calls ?sA) A = 1" by (rule lA)
  next
    show "dialogListeners (calls ?sB) B = 1" using lB[of B] by simp
  next
    assume "A \<noteq> B"
    then show "dialogListeners (calls ?sB) A = 0" using lB[of A] by simp
  next
    show "\<exists>rest. calls ?sB =
      calls ?sA @ [Off_dialog A, EmulateFocusedPage A False, On_dialog B] @ rest"
      by (rule cB)
  qed
qed

theorem selectPage_single_listener_witness:
  "reachable 0 demo_ctx0 \<and>
   dialogListeners (calls demo_ctx0) 0 = 1 \<and> dialogListeners (calls demo_ctx0) 1 = 0 \<and>
   dialogListeners (calls (snd (selectPage demo_env 1 (snd (selectPage demo_env 0 demo_ctx0))))) 1 = 1 \<and>
   dialogListeners (calls (snd (selectPage demo_env 1 (snd (selectPage demo_env 0 demo_ctx0))))) 0 = 0"
proof -
  note t = selectPage_single_listener [OF reachable_demo_ctx0, of demo_env 0 demo_env 1]
  from t have a: "dialogListeners (calls demo_ctx0) 0 = 1" "dialogListeners (calls demo_ctx0) 1 = 0"
    by (simp_all add: demo_ctx0_fields)
  from t have b:
    "dialogListeners (calls (snd (selectPage demo_env 1 (snd (selectPage demo_env 0 demo_ctx0))))) 1 = 1"
    "dialogListeners (calls (snd (selectPage demo_env 1 (snd (selectPage demo_env 0 demo_ctx0))))) 0 = 0"
    unfolding Let_def by simp_all
  from reachable_demo_ctx0 a b show ?thesis by (intro conjI)
qed

section \<open>Page registry\<close>



lemma assignPageIds_facts:
  "assignPageIds xs (m, k) = (m', k') \<Longrightarrow>
     k \<le> k' \<and>
     (\<forall>p. m p \<noteq> None \<longrightarrow> m' p = m p) \<and>
     dom m' = dom m \<union> set xs \<and>
     (\<forall>p. m p = None \<and> m' p \<noteq> None \<longrightarrow> (\<exists>i. m' p = Some i \<and> k \<le> i \<and> i < k'))"
proof (induction xs arbitrary: m k)
  case Nil
  then show ?case by auto
next
  case (Cons x xs)
  show ?case
  proof (cases "m x")
    case None
    let ?m = "m(x \<mapsto> k)"
    from None Cons.prems have "assignPageIds xs (?m, Suc k) = (m', k')" by simp
    from Cons.IH[OF this] have
      le: "Suc k \<le> k'" and
      st: "\<And>p. ?m p \<noteq> None \<Longrightarrow> m' p = ?m p" and
      dm: "dom m' = dom ?m \<union> set xs" and
      nw: "\<And>p. ?m p = None \<Longrightarrow> m' p \<noteq> None \<Longrightarrow> \<exists>i. m' p = Some i \<and> Suc k \<le> i \<and> i < k'"
      by blast+
    have 1: "k \<le> k'" using le by simp
    have 2: "\<forall>p. m p \<noteq> None \<longrightarrow> m' p = m p"
    proof (intro allI impI)
      fix p assume "m p \<noteq> None"
      with None have "p \<noteq> x" by auto
      with st[of p] \<open>m p \<noteq> None\<close> show "m' p = m p" by simp
    qed
    have 3: "dom m' = dom m \<union> set (x # xs)" using dm by auto
    have 4: "\<forall>p. m p = None \<and> m' p \<noteq> None \<longrightarrow> (\<exists>i. m' p = Some i \<and> k \<le> i \<and> i < k')"
    proof (intro allI impI)
      fix p assume a: "m p = None \<and> m' p \<noteq> None"
      show "\<exists>i. m' p = Some i \<and> k \<le> i \<and> i < k'"
      proof (cases "p = x")
        case True
        with st[of x] have "m' p = Some k" by simp
        with le show ?thesis by simp
      next
        case False
        with a have "?m p = None" by simp
        from nw[OF this] a obtain i where "m' p = Some i" "Suc k \<le> i" "i < k'" by blast
        then show ?thesis by auto
      qed
    qed
    from 1 2 3 4 show ?thesis by blast
  next
    case (Some i)
    with Cons.prems have "assignPageIds xs (m, k) = (m', k')" by simp
    from Cons.IH[OF this] have
      le: "k \<le> k'" and
      st: "\<forall>p. m p \<noteq> None \<longrightarrow> m' p = m p" and
      dm: "dom m' = dom m \<union> set xs" and
      nw: "\<forall>p. m p = None \<and> m' p \<noteq> None \<longrightarrow> (\<exists>i. m' p = Some i \<and> k \<le> i \<and> i < k')"
      by blast+
    from Some have "x \<in> dom m" by auto
    with dm have "dom m' = dom m \<union> set (x # xs)" by auto
    with le st nw show ?thesis by blast
  qed
qed

lemma assignPageIds_inj:
  "assignPageIds xs (m, k) = (m', k') \<Longrightarrow>
   (\<forall>p i. m p = Some i \<longrightarrow> 0 < i \<and> i < k) \<Longrightarrow> (\<forall>p q i. m p = Some i \<and> m q = Some i \<longrightarrow> p = q) \<Longrightarrow> 0 < k \<Longrightarrow>
     (\<forall>p i. m' p = Some i \<longrightarrow> 0 < i \<and> i < k') \<and> (\<forall>p q i. m' p = Some i \<and> m' q = Some i \<longrightarrow> p = q)"
proof (induction xs arbitrary: m k)
  case Nil
  then show ?case by simp
next
  case (Cons x xs)
  show ?case
  proof (cases "m x")
    case None
    with Cons.prems(1) have a: "assignPageIds xs (m(x \<mapsto> k), Suc k) = (m', k')" by simp
    have b: "\<forall>p i. (m(x \<mapsto> k)) p = Some i \<longrightarrow> 0 < i \<and> i < Suc k"
      using Cons.prems(2,4) by (auto simp: less_Suc_eq)
    have c: "\<forall>p q i. (m(x \<mapsto> k)) p = Some i \<and> (m(x \<mapsto> k)) q = Some i \<longrightarrow> p = q"
      using Cons.prems(2,3) by (auto split: if_splits)
    from Cons.IH[OF a b c] show ?thesis by simp
  next
    case (Some i)
    with Cons.prems(1) have "assignPageIds xs (m, k) = (m', k')" by simp
    from Cons.IH[OF this Cons.prems(2,3,4)] show ?thesis .
  qed
qed




lemma refreshed_ids:
  "assignPageIds (browser_pages env (experimentalIncludeAllPages (options s)))
      (pageIdMap s, nextPageId s) = (pageIdMap (refreshed env s), nextPageId (refreshed env s))"
  "pages (refreshed env s) =
     filter (isVisible env s) (browser_pages env (experimentalIncludeAllPages (options s)))"
  by (simp_all add: refreshed_def Let_def split: prod.splits)

lemma createPagesSnapshot_registry:
  "pageIdMap (snd (createPagesSnapshot env s)) = pageIdMap (refreshed env s)"
  "nextPageId (snd (createPagesSnapshot env s)) = nextPageId (refreshed env s)"
  "pages (snd (createPagesSnapshot env s)) = pages (refreshed env s)"
  by (simp_all add: createPagesSnapshot_state selectPage_frame)


lemma reachable_pageIds:
  assumes "reachable n s"
  shows "0 < nextPageId s \<and>
         (\<forall>p i. pageIdMap s p = Some i \<longrightarrow> 0 < i \<and> i < nextPageId s) \<and>
         (\<forall>p q i. pageIdMap s p = Some i \<and> pageIdMap s q = Some i \<longrightarrow> p = q) \<and>
         set (pages s) \<subseteq> dom (pageIdMap s)"
  using assms
proof (induction rule: reachable.induct)
  case (r_new opts)
  show ?case by (simp add: McpContext_new_def)
next
  case (r_pages n s env)
  let ?all = "browser_pages env (experimentalIncludeAllPages (options s))"
  note a = refreshed_ids(1)[of env s]
  from r_pages.IH have
    i0: "0 < nextPageId s" and
    i1: "\<forall>p i. pageIdMap s p = Some i \<longrightarrow> 0 < i \<and> i < nextPageId s" and
    i2: "\<forall>p q i. pageIdMap s p = Some i \<and> pageIdMap s q = Some i \<longrightarrow> p = q"
    by blast+
  from assignPageIds_inj[OF a i1 i2 i0] have
    j: "(\<forall>p i. pageIdMap (refreshed env s) p = Some i \<longrightarrow> 0 < i \<and> i < nextPageId (refreshed env s))"
       "(\<forall>p q i. pageIdMap (refreshed env s) p = Some i \<and> pageIdMap (refreshed env s) q = Some i \<longrightarrow> p = q)"
    by blast+
  from assignPageIds_facts[OF a] i0 have
    k: "0 < nextPageId (refreshed env s)" and
    d: "dom (pageIdMap (refreshed env s)) = dom (pageIdMap s) \<union> set ?all"
    by auto
  have "set (pages (refreshed env s)) \<subseteq> dom (pageIdMap (refreshed env s))"
    unfolding d refreshed_ids(2) by auto
  with j k show ?case unfolding createPagesSnapshot_registry by blast
next
  case (r_select n s env p)
  then show ?case by (simp add: selectPage_frame)
next
  case (r_close n s i)
  then show ?case by (simp add: closePage_frame)
next
  case (r_no_capture n s env vb)
  then show ?case by (simp add: createTextSnapshot_frame)
next
  case (r_capture n s env vb)
  then show ?case by (simp add: createTextSnapshot_frame)
next
  case (r_save n s env d f)
  then show ?case by (simp add: saveFile_frame)
next
  case (r_dialog n s d)
  then show ?case by (simp add: dialogHandler_def)
next
  case (r_clear n s)
  then show ?case by (simp add: clearDialog_def)
qed






lemma demo_ctx2_fields:
  "pages demo_ctx2 = [0, 1]"
  "selectedPage demo_ctx2 = Some 0"
  "pageIdMap demo_ctx2 0 = Some 1"
  "pageIdMap demo_ctx2 (Suc 0) = Some 2"
  by (simp_all add: demo_ctx2_def McpContext_from_def init_def createPagesSnapshot_def
        McpContext_new_def demo_env_two_def demo_env_def demo_opts_def isVisible_def
        selectPage_def issue_def updateSelectedPageTimeouts_def getSelectedPage_def Let_def)

lemma reachable_demo_ctx2: "reachable 0 demo_ctx2"
  unfolding demo_ctx2_def McpContext_from_def init_state
  by (rule r_pages) (rule r_new)

text \<open>
  Claim C4, as the code has it. With exactly one page in the session's list, \<^verbatim>\<open>closePage\<close>
  fails with the last-page message for any id and changes nothing. With any other number of
  listed pages it fails with \<^verbatim>\<open>No page found\<close> when no listed page carries the id, and
  otherwise issues \<^verbatim>\<open>close\<close> with \<^verbatim>\<open>runBeforeUnload\<close> false to the one listed page that carries
  it. In every case the session's list of visible pages is what it was: the list changes
  only in a refresh.
\<close>

theorem closePage_outcome:
  "(length (pages s) = 1 \<longrightarrow>
      closePage s i =
        (Inl (Error ''The last open page cannot be closed. It is fine to keep it open.'' None), s)) \<and>
   (length (pages s) \<noteq> 1 \<and> (\<forall>p \<in> set (pages s). pageIdMap s p \<noteq> Some i) \<longrightarrow>
      closePage s i = (Inl (Error ''No page found'' None), s)) \<and>
   (length (pages s) \<noteq> 1 \<and> reachable n s \<and> p \<in> set (pages s) \<and> pageIdMap s p = Some i \<longrightarrow>
      closePage s i = (Inr (), s\<lparr>calls := calls s @ [Close p False]\<rparr>)) \<and>
   pages (snd (closePage s i)) = pages s"
proof (intro conjI impI)
  assume "length (pages s) = 1"
  then show "closePage s i =
        (Inl (Error ''The last open page cannot be closed. It is fine to keep it open.'' None), s)"
    by (simp add: closePage_def CLOSE_PAGE_ERROR_def)
next
  assume h: "length (pages s) \<noteq> 1 \<and> (\<forall>p \<in> set (pages s). pageIdMap s p \<noteq> Some i)"
  then have "find (\<lambda>p. pageIdMap s p = Some i) (pages s) = None"
    by (simp add: find_None_iff)
  with h show "closePage s i = (Inl (Error ''No page found'' None), s)"
    by (simp add: closePage_def getPageById_def NO_PAGE_FOUND_def)
next
  assume h: "length (pages s) \<noteq> 1 \<and> reachable n s \<and> p \<in> set (pages s) \<and> pageIdMap s p = Some i"
  then have "find (\<lambda>p. pageIdMap s p = Some i) (pages s) \<noteq> None"
    by (auto simp: find_None_iff)
  then obtain q where q: "find (\<lambda>p. pageIdMap s p = Some i) (pages s) = Some q" by blast
  then have "pageIdMap s q = Some i" by (auto simp: find_Some_iff)
  with h reachable_pageIds[of n s] have "q = p" by blast
  with q h show "closePage s i = (Inr (), s\<lparr>calls := calls s @ [Close p False]\<rparr>)"
    by (simp add: closePage_def getPageById_def issue_def)
next
  show "pages (snd (closePage s i)) = pages s" by (rule closePage_frame)
qed

theorem closePage_outcome_witness:
  "length (pages demo_ctx0) = 1 \<and>
   closePage demo_ctx0 1 =
     (Inl (Error ''The last open page cannot be closed. It is fine to keep it open.'' None), demo_ctx0) \<and>
   length (pages demo_ctx2) \<noteq> 1 \<and> pages demo_ctx2 = [0, 1] \<and>
   pageIdMap demo_ctx2 0 \<noteq> Some 7 \<and> pageIdMap demo_ctx2 1 \<noteq> Some 7 \<and>
   closePage demo_ctx2 7 = (Inl (Error ''No page found'' None), demo_ctx2) \<and>
   reachable 0 demo_ctx2 \<and> 1 \<in> set (pages demo_ctx2) \<and> pageIdMap demo_ctx2 1 = Some 2 \<and>
   closePage demo_ctx2 2 = (Inr (), demo_ctx2\<lparr>calls := calls demo_ctx2 @ [Close 1 False]\<rparr>)"
proof -
  have a: "length (pages demo_ctx0) = 1" by (simp add: demo_ctx0_fields)
  have b: "length (pages demo_ctx2) \<noteq> 1 \<and> (\<forall>p \<in> set (pages demo_ctx2). pageIdMap demo_ctx2 p \<noteq> Some 7)"
    by (simp add: demo_ctx2_fields)
  have c: "length (pages demo_ctx2) \<noteq> 1 \<and> reachable 0 demo_ctx2 \<and> 1 \<in> set (pages demo_ctx2) \<and>
           pageIdMap demo_ctx2 1 = Some 2"
    by (simp add: demo_ctx2_fields reachable_demo_ctx2)
  from closePage_outcome [of demo_ctx0 1] a
    closePage_outcome [of demo_ctx2 7] b
    closePage_outcome [of demo_ctx2 2 0 1] c
  show ?thesis by (simp add: demo_ctx2_fields)
qed

text \<open>
  Against claim C4 as stated: with two visible pages, closing the page with id 2 succeeds
  and the session still lists two visible pages, so that a second call, for id 1, is not
  refused either: close is issued to both pages.
\<close>

theorem closePage_list_unchanged_counterexample:
  "length (pages demo_ctx2) = 2 \<and>
   fst (closePage demo_ctx2 2) = Inr () \<and>
   length (pages (snd (closePage demo_ctx2 2))) = 2 \<and>
   fst (closePage (snd (closePage demo_ctx2 2)) 1) = Inr () \<and>
   calls (snd (closePage (snd (closePage demo_ctx2 2)) 1)) =
     calls demo_ctx2 @ [Close 1 False, Close 0 False]"
  by (simp add: closePage_def getPageById_def issue_def demo_ctx2_fields)

section \<open>Response assembly\<close>

lemma foldl_push: "foldl push xs ys = xs @ ys"
  by (induction ys arbitrary: xs) (simp_all add: push_def)

lemma foldl_push_map: "foldl (\<lambda>parts x. push parts (f x)) xs ys = xs @ map f ys"
  by (induction ys arbitrary: xs) (simp_all add: push_def)

lemma format_lines:
  "format env toolName r ctx fs =
     TextContent (join NL
       ((''# '' @ toolName @ '' response'') # textResponseLines r
        @ (case dialog ctx of None \<Rightarrow> [] | Some d \<Rightarrow> [dialog_notice d])
        @ (if includePages r then ''## Pages'' # map (page_line env ctx) (pages ctx) else [])
        @ (case fs of None \<Rightarrow> []
           | Some t \<Rightarrow> if t = [] then [] else [''## Latest page snapshot'', t])))
     # map (\<lambda>i. ImageContent (img_data i) (img_mimeType i)) (images r)"
  unfolding format_def Let_def foldl_push foldl_push_map
  by (simp add: push_def getDialog_def getPages_def split: option.splits)

lemma appendResponseLine_foldl:
  "textResponseLines (foldl (\<lambda>r l. appendResponseLine l r) r0 ls) = textResponseLines r0 @ ls"
  by (induction ls arbitrary: r0) (simp_all add: appendResponseLine_def push_def)

lemma attachImage_foldl:
  "images (foldl (\<lambda>r i. attachImage i r) r0 is) = images r0 @ is"
  by (induction "is" arbitrary: r0) (simp_all add: attachImage_def push_def)

lemma handle_success:
  assumes "fst (handle env toolName r s) = Inr blocks"
  shows "blocks = format env toolName r (snd (handle env toolName r s))
           (case snapshotParams r of
              None \<Rightarrow> None
            | Some params \<Rightarrow>
                (case textSnapshot (snd (handle env toolName r s)) of
                   None \<Rightarrow> None
                 | Some snap \<Rightarrow>
                     Some (if truthy (sp_filePath params)
                           then ''Saved snapshot to '' @ the (sp_filePath params) @ ''.''
                           else formatSnapshotNode env (root snap) snap)))"
proof -
  obtain a s1 where pre:
    "(if includePages r then createPagesSnapshot env s else (Inr [], s)) = (a, s1)"
    by (metis surj_pair)
  show ?thesis
  proof (cases "snapshotParams r")
    case None
    with assms pre show ?thesis
      by (cases a) (auto simp: handle_def)
  next
    case (Some params)
    obtain b s2 where cap:
      "createTextSnapshot env (case sp_verbose params of None \<Rightarrow> False | Some b \<Rightarrow> b) s1 = (b, s2)"
      by (metis surj_pair)
    show ?thesis
    proof (cases "textSnapshot s2")
      case None
      with assms pre cap Some show ?thesis
        by (cases a; cases b) (auto simp: handle_def getTextSnapshot_def)
    next
      case snap: (Some snapshot)
      obtain c s3 where sv:
        "saveFile env (formatSnapshotNode env (root snapshot) snapshot) (the (sp_filePath params)) s2
           = (c, s3)"
        by (metis surj_pair)
      have "textSnapshot s3 = textSnapshot s2"
        using saveFile_frame(1)[of env _ _ s2] sv by (metis snd_conv)
      with assms pre cap Some snap sv show ?thesis
        by (cases a; cases b; cases c; cases "truthy (sp_filePath params)")
           (auto simp: handle_def getTextSnapshot_def)
    qed
  qed
qed

lemma handle_steps:
  assumes "(if includePages r then createPagesSnapshot env s else (Inr [], s)) = (Inr ps, s1)"
  shows "snapshotParams r = None \<Longrightarrow>
           handle env toolName r s = (Inr (format env toolName r s1 None), s1)"
    and "snapshotParams r = Some params \<Longrightarrow>
         createTextSnapshot env (case sp_verbose params of None \<Rightarrow> False | Some b \<Rightarrow> b) s1
           = (Inr (), s2) \<Longrightarrow> textSnapshot s2 = None \<Longrightarrow>
           handle env toolName r s = (Inr (format env toolName r s2 None), s2)"
    and "snapshotParams r = Some params \<Longrightarrow>
         createTextSnapshot env (case sp_verbose params of None \<Rightarrow> False | Some b \<Rightarrow> b) s1
           = (Inr (), s2) \<Longrightarrow> textSnapshot s2 = Some snapshot \<Longrightarrow>
         \<not> truthy (sp_filePath params) \<Longrightarrow>
           handle env toolName r s =
             (Inr (format env toolName r s2
                    (Some (formatSnapshotNode env (root snapshot) snapshot))), s2)"
    and "snapshotParams r = Some params \<Longrightarrow>
         createTextSnapshot env (case sp_verbose params of None \<Rightarrow> False | Some b \<Rightarrow> b) s1
           = (Inr (), s2) \<Longrightarrow> textSnapshot s2 = Some snapshot \<Longrightarrow>
         sp_filePath params = Some path \<Longrightarrow> path \<noteq> [] \<Longrightarrow>
         fs_writeFile env (path_resolve env path)
           (formatSnapshotNode env (root snapshot) snapshot) = None \<Longrightarrow>
           handle env toolName r s =
             (Inr (format env toolName r
                     (s2\<lparr>files := (files s2)(path_resolve env path \<mapsto>
                                     formatSnapshotNode env (root snapshot) snapshot)\<rparr>)
                     (Some (''Saved snapshot to '' @ path @ ''.''))),
              s2\<lparr>files := (files s2)(path_resolve env path \<mapsto>
                                     formatSnapshotNode env (root snapshot) snapshot)\<rparr>)"
  using assms
  by (simp_all add: handle_def getTextSnapshot_def truthy_def saveFile_def Let_def
        split: prod.splits sum.splits)


lemma demo_capture:
  assumes "selectedPage c = Some 0" and "nextSnapshotId c = 1"
  shows "fst (createTextSnapshot demo_env False c) = Inr ()"
    and "\<exists>t. textSnapshot (snd (createTextSnapshot demo_env False c)) = Some t \<and>
             formatSnapshotNode demo_env (root t) t = ''uid=1_0 RootWebArea''"
    and "dialog (snd (createTextSnapshot demo_env False c)) = dialog c"
  using assms
  by (simp_all add: createTextSnapshot_def getSelectedPage_def demo_env_def demo_tree_def
        mk_id_def string_of_nat_digits Let_def)

lemma demo_dialog_refresh:
  "fst (createPagesSnapshot demo_env demo_ctx_dialog) = Inr [0]"
  "selectedPage (snd (createPagesSnapshot demo_env demo_ctx_dialog)) = Some 0"
  "pages (snd (createPagesSnapshot demo_env demo_ctx_dialog)) = [0]"
  "pageIdMap (snd (createPagesSnapshot demo_env demo_ctx_dialog)) 0 = Some 1"
  "dialog (snd (createPagesSnapshot demo_env demo_ctx_dialog)) = Some demo_dialog"
  "nextSnapshotId (snd (createPagesSnapshot demo_env demo_ctx_dialog)) = 1"
  by (simp_all add: demo_ctx_dialog_def dialogHandler_def demo_ctx0_def McpContext_from_def
        init_def createPagesSnapshot_def McpContext_new_def demo_env_def demo_opts_def
        isVisible_def selectPage_def issue_def updateSelectedPageTimeouts_def
        getSelectedPage_def Let_def)

text \<open>
  Claim C8, as the code has it. The content blocks that \<^verbatim>\<open>format\<close> returns are one text
  block followed by one image block per attached image, in the order of \<^verbatim>\<open>images\<close>. The text
  is the join with newlines of: the header naming the tool; the accumulated lines; one
  notice block if a dialog is pending, with the dialog's type and message, and the default
  value for type \<^verbatim>\<open>prompt\<close>; if pages were requested the line \<^verbatim>\<open>## Pages\<close> and one line
  \<^verbatim>\<open>id: url\<close> per page, with \<^verbatim>\<open>[selected]\<close> on the selected page; and, if a non-empty snapshot
  text is given, the line \<^verbatim>\<open>## Latest page snapshot\<close> and that text. Lines and images are
  accumulated in the order of the calls of \<^verbatim>\<open>appendResponseLine\<close> and \<^verbatim>\<open>attachImage\<close>, and in a
  session every listed page has an id.

  Finalize (\<^verbatim>\<open>handle\<close>) passes to \<^verbatim>\<open>format\<close> the state after the refresh (if pages were
  requested) and the capture (if a snapshot was requested), and as snapshot text: nothing
  if no snapshot was requested; nothing if one was requested and no snapshot is present
  after the capture; the rendering of the present snapshot if no file path was given; the
  line \<^verbatim>\<open>Saved snapshot to <path>.\<close> if one was given and the write succeeded. Every response
  that finalize returns is of this form.
\<close>

theorem finalize_composition:
  "format env toolName r ctx fs =
     (let header = ''# '' @ toolName @ '' response'';
          notice = (case dialog ctx of
                      None \<Rightarrow> []
                    | Some d \<Rightarrow>
                        [''# Open dialog'' @ NL @ dialog_type d @ '': '' @ dialog_message d @
                         (if dialog_type d = ''prompt''
                          then '' (default value: '' @ DQ @ dialog_defaultValue d @ DQ @ '')''
                          else []) @
                         ''.'' @ NL @ ''Call handle_dialog to handle it before continuing.'']);
          pagesSection = (if includePages r
                          then ''## Pages'' #
                               map (\<lambda>p. pageId_text (pageIdMap ctx p) @ '': '' @ page_url env p @
                                         (if selectedPage ctx = Some p then '' [selected]'' else []))
                                   (pages ctx)
                          else []);
          snapshotSection = (case fs of
                               None \<Rightarrow> []
                             | Some t \<Rightarrow> if t = [] then [] else [''## Latest page snapshot'', t])
      in TextContent (join NL (header # textResponseLines r @ notice @ pagesSection @ snapshotSection))
         # map (\<lambda>i. ImageContent (img_data i) (img_mimeType i)) (images r)) \<and>
   textResponseLines (foldl (\<lambda>r l. appendResponseLine l r) r ls) = textResponseLines r @ ls \<and>
   images (foldl (\<lambda>r i. attachImage i r) r is) = images r @ is \<and>
   (reachable n ctx \<longrightarrow> (\<forall>p \<in> set (pages ctx). \<exists>i. pageIdMap ctx p = Some i \<and>
                                pageId_text (pageIdMap ctx p) = string_of_nat i)) \<and>
   ((if includePages r then createPagesSnapshot env s else (Inr [], s)) = (Inr ps, s') \<longrightarrow>
      (snapshotParams r = None \<longrightarrow>
         handle env toolName r s = (Inr (format env toolName r s' None), s')) \<and>
      (snapshotParams r = Some params \<and>
       createTextSnapshot env (case sp_verbose params of None \<Rightarrow> False | Some b \<Rightarrow> b) s'
         = (Inr (), s'') \<longrightarrow>
         (textSnapshot s'' = None \<longrightarrow>
            handle env toolName r s = (Inr (format env toolName r s'' None), s'')) \<and>
         (textSnapshot s'' = Some snapshot \<and> \<not> truthy (sp_filePath params) \<longrightarrow>
            handle env toolName r s =
              (Inr (format env toolName r s''
                     (Some (formatSnapshotNode env (root snapshot) snapshot))), s'')) \<and>
         (textSnapshot s'' = Some snapshot \<and> sp_filePath params = Some path \<and> path \<noteq> [] \<and>
          fs_writeFile env (path_resolve env path)
            (formatSnapshotNode env (root snapshot) snapshot) = None \<longrightarrow>
            handle env toolName r s =
              (Inr (format env toolName r
                      (s''\<lparr>files := (files s'')(path_resolve env path \<mapsto>
                                      formatSnapshotNode env (root snapshot) snapshot)\<rparr>)
                      (Some (''Saved snapshot to '' @ path @ ''.''))),
               s''\<lparr>files := (files s'')(path_resolve env path \<mapsto>
                                      formatSnapshotNode env (root snapshot) snapshot)\<rparr>)))) \<and>
   (fst (handle env toolName r s) = Inr blocks \<longrightarrow>
      blocks = format env toolName r (snd (handle env toolName r s))
                 (case snapshotParams r of
                    None \<Rightarrow> None
                  | Some params \<Rightarrow>
                      (case textSnapshot (snd (handle env toolName r s)) of
                         None \<Rightarrow> None
                       | Some snap \<Rightarrow>
                           Some (if truthy (sp_filePath params)
                                 then ''Saved snapshot to '' @ the (sp_filePath params) @ ''.''
                                 else formatSnapshotNode env (root snap) snap))))"
proof -
  have l: "page_line env ctx = (\<lambda>p. pageId_text (pageIdMap ctx p) @ '': '' @ page_url env p @
                                         (if selectedPage ctx = Some p then '' [selected]'' else []))"
    by (rule ext) (simp add: page_line_def getPageId_def isPageSelected_def)
  have 1: "format env toolName r ctx fs =
     (let header = ''# '' @ toolName @ '' response'';
          notice = (case dialog ctx of
                      None \<Rightarrow> []
                    | Some d \<Rightarrow>
                        [''# Open dialog'' @ NL @ dialog_type d @ '': '' @ dialog_message d @
                         (if dialog_type d = ''prompt''
                          then '' (default value: '' @ DQ @ dialog_defaultValue d @ DQ @ '')''
                          else []) @
                         ''.'' @ NL @ ''Call handle_dialog to handle it before continuing.'']);
          pagesSection = (if includePages r
                          then ''## Pages'' #
                               map (\<lambda>p. pageId_text (pageIdMap ctx p) @ '': '' @ page_url env p @
                                         (if selectedPage ctx = Some p then '' [selected]'' else []))
                                   (pages ctx)
                          else []);
          snapshotSection = (case fs of
                               None \<Rightarrow> []
                             | Some t \<Rightarrow> if t = [] then [] else [''## Latest page snapshot'', t])
      in TextContent (join NL (header # textResponseLines r @ notice @ pagesSection @ snapshotSection))
         # map (\<lambda>i. ImageContent (img_data i) (img_mimeType i)) (images r))"
    unfolding format_lines l Let_def
    by (simp add: dialog_notice_def handleDialog_name_def Let_def split: option.splits)
  have 2: "textResponseLines (foldl (\<lambda>r l. appendResponseLine l r) r ls) = textResponseLines r @ ls"
    by (rule appendResponseLine_foldl)
  have 3: "images (foldl (\<lambda>r i. attachImage i r) r is) = images r @ is"
    by (rule attachImage_foldl)
  have 4: "reachable n ctx \<longrightarrow> (\<forall>p \<in> set (pages ctx). \<exists>i. pageIdMap ctx p = Some i \<and>
                                pageId_text (pageIdMap ctx p) = string_of_nat i)"
  proof (intro impI ballI)
    fix p assume "reachable n ctx" "p \<in> set (pages ctx)"
    with reachable_pageIds[of n ctx] obtain i where "pageIdMap ctx p = Some i" by blast
    then show "\<exists>i. pageIdMap ctx p = Some i \<and> pageId_text (pageIdMap ctx p) = string_of_nat i"
      by (simp add: pageId_text_def)
  qed
  have 5: "(if includePages r then createPagesSnapshot env s else (Inr [], s)) = (Inr ps, s') \<longrightarrow>
      (snapshotParams r = None \<longrightarrow>
         handle env toolName r s = (Inr (format env toolName r s' None), s')) \<and>
      (snapshotParams r = Some params \<and>
       createTextSnapshot env (case sp_verbose params of None \<Rightarrow> False | Some b \<Rightarrow> b) s'
         = (Inr (), s'') \<longrightarrow>
         (textSnapshot s'' = None \<longrightarrow>
            handle env toolName r s = (Inr (format env toolName r s'' None), s'')) \<and>
         (textSnapshot s'' = Some snapshot \<and> \<not> truthy (sp_filePath params) \<longrightarrow>
            handle env toolName r s =
              (Inr (format env toolName r s''
                     (Some (formatSnapshotNode env (root snapshot) snapshot))), s'')) \<and>
         (textSnapshot s'' = Some snapshot \<and> sp_filePath params = Some path \<and> path \<noteq> [] \<and>
          fs_writeFile env (path_resolve env path)
            (formatSnapshotNode env (root snapshot) snapshot) = None \<longrightarrow>
            handle env toolName r s =
              (Inr (format env toolName r
                      (s''\<lparr>files := (files s'')(path_resolve env path \<mapsto>
                                      formatSnapshotNode env (root snapshot) snapshot)\<rparr>)
                      (Some (''Saved snapshot to '' @ path @ ''.''))),
               s''\<lparr>files := (files s'')(path_resolve env path \<mapsto>
                                      formatSnapshotNode env (root snapshot) snapshot)\<rparr>)))"
    using handle_steps [of r env s ps s'] by blast
  have 6: "fst (handle env toolName r s) = Inr blocks \<longrightarrow>
      blocks = format env toolName r (snd (handle env toolName r s))
                 (case snapshotParams r of
                    None \<Rightarrow> None
                  | Some params \<Rightarrow>
                      (case textSnapshot (snd (handle env toolName r s)) of
                         None \<Rightarrow> None
                       | Some snap \<Rightarrow>
                           Some (if truthy (sp_filePath params)
                                 then ''Saved snapshot to '' @ the (sp_filePath params) @ ''.''
                                 else formatSnapshotNode env (root snap) snap)))"
    by (intro impI) (rule handle_success)
  from 1 2 3 4 5 6 show ?thesis by (intro conjI)
qed

theorem finalize_composition_witness:
  "reachable 0 demo_ctx_dialog \<and>
   includePages demo_response_inline \<and>
   snapshotParams demo_response_inline = Some \<lparr>sp_verbose = Some False, sp_filePath = None\<rparr> \<and>
   fst (handle demo_env ''test'' demo_response_inline demo_ctx_dialog) =
     Inr [TextContent (''# test response'' @ NL @ ''Testing 1'' @ NL @
                       ''# Open dialog'' @ NL @
                       ''prompt: message (default value: '' @ DQ @ ''default'' @ DQ @ '').'' @ NL @
                       ''Call handle_dialog to handle it before continuing.'' @ NL @
                       ''## Pages'' @ NL @ ''1: about:blank [selected]'' @ NL @
                       ''## Latest page snapshot'' @ NL @ ''uid=1_0 RootWebArea''),
          ImageContent ''imageBase64'' ''image/png'']"
proof -
  let ?params = "\<lparr>sp_verbose = Some False, sp_filePath = None\<rparr>"
  let ?s1 = "snd (createPagesSnapshot demo_env demo_ctx_dialog)"
  let ?s2 = "snd (createTextSnapshot demo_env False ?s1)"
  have r: "reachable 0 demo_ctx_dialog"
    unfolding demo_ctx_dialog_def by (rule r_dialog [OF reachable_demo_ctx0])
  have d: "includePages demo_response_inline" "snapshotParams demo_response_inline = Some ?params"
    "textResponseLines demo_response_inline = [''Testing 1'']"
    "images demo_response_inline = [\<lparr>img_data = ''imageBase64'', img_mimeType = ''image/png''\<rparr>]"
    by (simp_all add: demo_response_inline_def includeSnapshot_def demo_response_def attachImage_def
          setIncludePages_def appendResponseLine_def McpResponse_new_def push_def)
  have pre: "(if includePages demo_response_inline then createPagesSnapshot demo_env demo_ctx_dialog
              else (Inr [], demo_ctx_dialog)) = (Inr [0], ?s1)"
    using demo_dialog_refresh(1) by (simp add: d prod_eq_iff)
  note c = demo_capture [OF demo_dialog_refresh(2) demo_dialog_refresh(6)]
  have cap: "createTextSnapshot demo_env (case sp_verbose ?params of None \<Rightarrow> False | Some b \<Rightarrow> b) ?s1
               = (Inr (), ?s2)"
    using c(1) by (simp add: prod_eq_iff)
  from c(2) obtain t where t: "textSnapshot ?s2 = Some t"
    and rendered: "formatSnapshotNode demo_env (root t) t = ''uid=1_0 RootWebArea''" by blast
  have f: "dialog ?s2 = Some demo_dialog" "pages ?s2 = [0]" "selectedPage ?s2 = Some 0"
    "pageIdMap ?s2 0 = Some 1"
    by (simp_all add: c(3) createTextSnapshot_frame demo_dialog_refresh)
  note inst = finalize_composition [where env = demo_env and toolName = "''test''"
      and r = demo_response_inline and s = demo_ctx_dialog and ps = "[0]" and s' = ?s1
      and params = ?params and s'' = ?s2 and snapshot = t and ctx = ?s2
      and fs = "Some ''uid=1_0 RootWebArea''"]
  from inst pre d(2) cap t have
    "handle demo_env ''test'' demo_response_inline demo_ctx_dialog =
       (Inr (format demo_env ''test'' demo_response_inline ?s2 (Some ''uid=1_0 RootWebArea'')), ?s2)"
    by (simp add: truthy_def rendered)
  moreover have u: "page_url demo_env 0 = ''about:blank''" by (simp add: demo_env_def)
  from inst [THEN conjunct1] have
    "format demo_env ''test'' demo_response_inline ?s2 (Some ''uid=1_0 RootWebArea'') =
     [TextContent (''# test response'' @ NL @ ''Testing 1'' @ NL @
                       ''# Open dialog'' @ NL @
                       ''prompt: message (default value: '' @ DQ @ ''default'' @ DQ @ '').'' @ NL @
                       ''Call handle_dialog to handle it before continuing.'' @ NL @
                       ''## Pages'' @ NL @ ''1: about:blank [selected]'' @ NL @
                       ''## Latest page snapshot'' @ NL @ ''uid=1_0 RootWebArea''),
          ImageContent ''imageBase64'' ''image/png'']"
    by (simp add: f d u Let_def demo_dialog_def pageId_text_def string_of_nat_digits)
  ultimately show ?thesis using r d(1,2) by simp
qed

text \<open>
  Against claim C8 as stated: a snapshot is requested on a blank page in a session without
  a prior snapshot. The driver returns no tree, no snapshot is present, and the finalized
  response has no snapshot section: its text is the header alone.
\<close>

theorem finalize_no_snapshot_counterexample:
  "snapshotParams demo_response_snapshot = Some \<lparr>sp_verbose = Some False, sp_filePath = None\<rparr> \<and>
   handle demo_env_blank ''test'' demo_response_snapshot demo_ctx0 =
     (Inr [TextContent ''# test response''], demo_ctx0)"
proof -
  have g: "getSelectedPage demo_env_blank demo_ctx0 = Inr 0"
    by (simp add: getSelectedPage_def demo_ctx0_fields demo_env_blank_def demo_env_def)
  have c: "createTextSnapshot demo_env_blank False demo_ctx0 = (Inr (), demo_ctx0)"
    unfolding createTextSnapshot_def g by (simp add: demo_env_blank_def)
  have d: "snapshotParams demo_response_snapshot = Some \<lparr>sp_verbose = Some False, sp_filePath = None\<rparr>"
    "includePages demo_response_snapshot = False" "textResponseLines demo_response_snapshot = []"
    "images demo_response_snapshot = []"
    by (simp_all add: demo_response_snapshot_def includeSnapshot_def McpResponse_new_def)
  show ?thesis
    by (simp add: handle_def d c getTextSnapshot_def demo_ctx0_fields format_lines)
qed

text \<open>
  Claim C9. Finalize with a snapshot requested into a non-empty file path, when the steps
  before the write succeed and a snapshot is present: if the write succeeds, the file at the
  resolved path holds the rendered snapshot and the response is the one formatted with the
  line \<^verbatim>\<open>Saved snapshot to <path>.\<close> as its snapshot section, the last two lines of the text
  being \<^verbatim>\<open>## Latest page snapshot\<close> and that line; if the write raises an error, finalize
  fails with the error \<^verbatim>\<open>Could not save a screenshot to a file\<close> whose cause is the raised
  error, and no file is written.
\<close>

theorem handle_snapshot_file:
  assumes "snapshotParams r = Some params"
    and "sp_filePath params = Some path" and "path \<noteq> []"
    and "(if includePages r then createPagesSnapshot env s else (Inr [], s)) = (Inr ps, s1)"
    and "createTextSnapshot env (case sp_verbose params of None \<Rightarrow> False | Some b \<Rightarrow> b) s1
           = (Inr (), s2)"
    and "textSnapshot s2 = Some snapshot"
  shows "let rendered = formatSnapshotNode env (root snapshot) snapshot;
             target = path_resolve env path;
             reference = ''Saved snapshot to '' @ path @ ''.''
         in (fs_writeFile env target rendered = None \<longrightarrow>
               (let s3 = s2\<lparr>files := (files s2)(target \<mapsto> rendered)\<rparr>
                in handle env toolName r s = (Inr (format env toolName r s3 (Some reference)), s3) \<and>
                   (\<exists>before. format env toolName r s3 (Some reference) =
                      TextContent (join NL (before @ [''## Latest page snapshot'', reference]))
                      # map (\<lambda>i. ImageContent (img_data i) (img_mimeType i)) (images r)))) \<and>
            (\<forall>err. fs_writeFile env target rendered = Some err \<longrightarrow>
               fst (handle env toolName r s) =
                 Inl (Error ''Could not save a screenshot to a file'' (Some err)) \<and>
               files (snd (handle env toolName r s)) = files s2)"
proof -
  let ?rendered = "formatSnapshotNode env (root snapshot) snapshot"
  let ?target = "path_resolve env path"
  let ?reference = "''Saved snapshot to '' @ path @ ''.''"
  have h: "handle env toolName r s =
      (case saveFile env ?rendered path s2 of
         (Inl e, s3) \<Rightarrow> (Inl e, s3)
       | (Inr f, s3) \<Rightarrow> (Inr (format env toolName r s3 (Some ?reference)), s3))"
    using assms
    by (simp add: handle_def getTextSnapshot_def truthy_def split: prod.splits sum.splits)
  have ok: "handle env toolName r s =
        (Inr (format env toolName r (s2\<lparr>files := (files s2)(?target \<mapsto> ?rendered)\<rparr>)
               (Some ?reference)),
         s2\<lparr>files := (files s2)(?target \<mapsto> ?rendered)\<rparr>)"
    if "fs_writeFile env ?target ?rendered = None"
    unfolding h using that by (simp add: saveFile_def Let_def)
  have sec: "\<exists>before. format env toolName r c (Some ?reference) =
                      TextContent (join NL (before @ [''## Latest page snapshot'', ?reference]))
                      # map (\<lambda>i. ImageContent (img_data i) (img_mimeType i)) (images r)" for c
    unfolding format_lines
    by (rule exI [of _ "(''# '' @ toolName @ '' response'') # textResponseLines r
        @ (case dialog c of None \<Rightarrow> [] | Some d \<Rightarrow> [dialog_notice d])
        @ (if includePages r then ''## Pages'' # map (page_line env c) (pages c) else [])"]) simp
  have bad: "fst (handle env toolName r s) =
                 Inl (Error ''Could not save a screenshot to a file'' (Some err)) \<and>
               files (snd (handle env toolName r s)) = files s2"
    if "fs_writeFile env ?target ?rendered = Some err" for err
    unfolding h using that by (simp add: saveFile_def Let_def issue_def)
  from ok sec bad show ?thesis
    unfolding Let_def by blast
qed

theorem handle_snapshot_file_witness:
  "snapshotParams demo_response_file =
     Some \<lparr>sp_verbose = Some False, sp_filePath = Some ''snap.txt''\<rparr> \<and>
   textSnapshot demo_ctx1 = Some (the (textSnapshot demo_ctx1)) \<and>
   fs_writeFile demo_env ''/work/snap.txt'' ''uid=1_0 RootWebArea'' = None \<and>
   files (snd (handle demo_env ''take_snapshot'' demo_response_file demo_ctx0)) ''/work/snap.txt''
     = Some ''uid=1_0 RootWebArea'' \<and>
   fst (handle demo_env ''take_snapshot'' demo_response_file demo_ctx0) =
     Inr [TextContent (''# take_snapshot response'' @ NL @ ''## Latest page snapshot'' @ NL @
                       ''Saved snapshot to snap.txt.'')] \<and>
   fs_writeFile demo_env ''/work/readonly.txt'' ''uid=1_0 RootWebArea''
     = Some (Error ''EACCES: permission denied'' None) \<and>
   fst (handle demo_env ''take_snapshot'' demo_response_readonly demo_ctx0) =
     Inl (Error ''Could not save a screenshot to a file''
            (Some (Error ''EACCES: permission denied'' None)))"
proof -
  let ?p1 = "\<lparr>sp_verbose = Some False, sp_filePath = Some ''snap.txt''\<rparr>"
  let ?p2 = "\<lparr>sp_verbose = Some False, sp_filePath = Some ''readonly.txt''\<rparr>"
  have r1: "snapshotParams demo_response_file = Some ?p1" "includePages demo_response_file = False"
    "textResponseLines demo_response_file = []" "images demo_response_file = []"
    by (simp_all add: demo_response_file_def includeSnapshot_def McpResponse_new_def)
  have r2: "snapshotParams demo_response_readonly = Some ?p2"
    "includePages demo_response_readonly = False"
    by (simp_all add: demo_response_readonly_def includeSnapshot_def McpResponse_new_def)
  have pre1: "(if includePages demo_response_file then createPagesSnapshot demo_env demo_ctx0
               else (Inr [], demo_ctx0)) = (Inr [], demo_ctx0)"
    by (simp add: r1)
  have pre2: "(if includePages demo_response_readonly then createPagesSnapshot demo_env demo_ctx0
               else (Inr [], demo_ctx0)) = (Inr [], demo_ctx0)"
    by (simp add: r2)
  have cap: "createTextSnapshot demo_env False demo_ctx0 = (Inr (), demo_ctx1)"
    using createTextSnapshot_capture [OF demo_captures] by (auto simp: demo_ctx1_def)
  have cap1: "createTextSnapshot demo_env (case sp_verbose ?p1 of None \<Rightarrow> False | Some b \<Rightarrow> b)
                demo_ctx0 = (Inr (), demo_ctx1)"
    by (simp add: cap)
  have cap2: "createTextSnapshot demo_env (case sp_verbose ?p2 of None \<Rightarrow> False | Some b \<Rightarrow> b)
                demo_ctx0 = (Inr (), demo_ctx1)"
    by (simp add: cap)
  have snap: "textSnapshot demo_ctx1 = Some (the (textSnapshot demo_ctx1))"
    by (simp add: demo_ctx1_snapshot)
  have rendered: "formatSnapshotNode demo_env (root (the (textSnapshot demo_ctx1)))
                    (the (textSnapshot demo_ctx1)) = ''uid=1_0 RootWebArea''"
    by (simp add: demo_ctx1_snapshot demo_env_def)
  have target: "path_resolve demo_env ''snap.txt'' = ''/work/snap.txt''"
    "path_resolve demo_env ''readonly.txt'' = ''/work/readonly.txt''"
    by (simp_all add: demo_env_def)
  have w: "fs_writeFile demo_env ''/work/snap.txt'' ''uid=1_0 RootWebArea'' = None"
    "fs_writeFile demo_env ''/work/readonly.txt'' ''uid=1_0 RootWebArea''
       = Some (Error ''EACCES: permission denied'' None)"
    by (simp_all add: demo_env_def)
  have d: "dialog demo_ctx1 = None"
    by (simp add: demo_ctx1_def createTextSnapshot_def demo_selected demo_snapshot Let_def
          demo_ctx0_fields split: prod.splits)
  note t1 = handle_snapshot_file [OF r1(1) _ _ pre1 cap1 snap, of "''snap.txt''" "''take_snapshot''",
      unfolded Let_def rendered target, simplified]
  note t2 = handle_snapshot_file [OF r2(1) _ _ pre2 cap2 snap, of "''readonly.txt''" "''take_snapshot''",
      unfolded Let_def rendered target, simplified]
  from t1 w(1) have a:
    "files (snd (handle demo_env ''take_snapshot'' demo_response_file demo_ctx0)) ''/work/snap.txt''
       = Some ''uid=1_0 RootWebArea''"
    "fst (handle demo_env ''take_snapshot'' demo_response_file demo_ctx0) =
     Inr [TextContent (''# take_snapshot response'' @ NL @ ''## Latest page snapshot'' @ NL @
                       ''Saved snapshot to snap.txt.'')]"
    by (simp_all add: format_lines r1 d)
  from t2 w(2) have b: "fst (handle demo_env ''take_snapshot'' demo_response_readonly demo_ctx0) =
     Inl (Error ''Could not save a screenshot to a file''
            (Some (Error ''EACCES: permission denied'' None)))"
    by simp
  from r1(1) snap w a b show ?thesis by (intro conjI)
qed

end
